theory Spec2Isabelle
  imports Main "HOL-Library.Word" "HOL-Library.Multiset"
begin

section \<open>The common-subexpression-elimination pass driver\<close>

text \<open>
  A shallow embedding of \<^verbatim>\<open>opt/cse/CommonSubexpressionEliminationPass.cpp\<close>:
  \<^verbatim>\<open>bind_config\<close> and \<^verbatim>\<open>run_pass\<close>, with the lambdas \<^verbatim>\<open>aggregate_stats\<close> and the
  per-method mapper handed to \<^verbatim>\<open>walk::parallel::reduce_methods\<close>.

  The file is a driver. The value-numbering engine (\<^verbatim>\<open>CommonSubexpressionElimination\<close>,
  \<^verbatim>\<open>SharedState\<close>), copy propagation, local dead code elimination, the purity allow-list,
  the walkers and the pass manager are declared in headers that the file includes and are
  taken here as parameters (the record \<open>collaborators\<close>), as total functions from the
  state they are handed to the state they leave behind. The engine is handed the shared
  state by pointer; it is taken to read it only, so that every method is processed on the
  shared state that \<^verbatim>\<open>init_scope\<close> left. Tracing (\<^verbatim>\<open>TRACE\<close>) has no effect on the state
  and is left out.
\<close>

subsection \<open>Data\<close>

text \<open>
  \<^verbatim>\<open>Stats\<close> is the struct of \<^verbatim>\<open>cse_impl\<close> whose fields \<^verbatim>\<open>aggregate_stats\<close> reads and
  writes. The counters are \<^verbatim>\<open>size_t\<close>, here 64-bit words (\<open>+\<close> wraps, the order is the
  unsigned one); \<^verbatim>\<open>eliminated_opcodes\<close> is an unordered map from an opcode, kept as a
  16-bit integer, to a counter.
\<close>

type_synonym counter = "64 word"
type_synonym opcode_key = "16 word"
type_synonym method_ref = string
type_synonym dex_type = string

record Stats =
  results_captured :: counter
  stores_captured :: counter
  array_lengths_captured :: counter
  instructions_eliminated :: counter
  max_value_ids :: counter
  methods_using_other_tracked_location_bit :: counter
  eliminated_opcodes :: "opcode_key \<rightharpoonup> counter"
  skipped_due_to_too_many_registers :: counter
  max_iterations :: counter

text \<open>\<^verbatim>\<open>Stats()\<close> and \<^verbatim>\<open>Stats{}\<close>: every counter zero, the map empty.\<close>

definition Stats_default :: Stats where
  "Stats_default =
     \<lparr> results_captured = 0, stores_captured = 0, array_lengths_captured = 0,
       instructions_eliminated = 0, max_value_ids = 0,
       methods_using_other_tracked_location_bit = 0, eliminated_opcodes = Map.empty,
       skipped_due_to_too_many_registers = 0, max_iterations = 0 \<rparr>"

text \<open>The statistics of \<^verbatim>\<open>SharedState\<close> that the pass reports.\<close>

record SharedStateStats =
  method_barriers :: counter
  method_barriers_iterations :: counter
  conditionally_pure_methods :: counter
  conditionally_pure_methods_iterations :: counter

text \<open>
  \<^verbatim>\<open>copy_propagation_impl::Config\<close>, with the fields this file names. Its defaults are
  set where the struct is declared; the default-constructed value is a parameter.
\<close>

record Config =
  eliminate_const_classes :: bool
  eliminate_const_strings :: bool
  static_finals :: bool
  max_estimated_registers :: counter

text \<open>
  Modelled from the spec: \<^verbatim>\<open>IRCode\<close> with \<^verbatim>\<open>build_cfg\<close>, \<^verbatim>\<open>clear_cfg\<close>,
  \<^verbatim>\<open>editable_cfg_built\<close> and \<^verbatim>\<open>cfg\<close> is declared outside this file. The CFG provider
  "support[s] rebuilding from and clearing back to a linear instruction form": the
  instructions are \<open>body\<close>, in whichever form they are held, and the flag says whether
  the editable graph is built.
\<close>

record 'b IRCode =
  body :: 'b
  editable_cfg_built :: bool

definition build_cfg :: "'b IRCode \<Rightarrow> 'b IRCode" where
  "build_cfg code = code\<lparr>editable_cfg_built := True\<rparr>"

definition clear_cfg :: "'b IRCode \<Rightarrow> 'b IRCode" where
  "clear_cfg code = code\<lparr>editable_cfg_built := False\<rparr>"

text \<open>
  A \<^verbatim>\<open>DexMethod\<close>, with what the driver reads of it: \<^verbatim>\<open>get_code()\<close> (null is \<open>None\<close>),
  \<^verbatim>\<open>rstate.no_optimizations()\<close>, \<^verbatim>\<open>is_static(method)\<close>, \<^verbatim>\<open>get_class()\<close> and
  \<^verbatim>\<open>get_proto()->get_args()\<close>.
\<close>

record 'b DexMethod =
  get_code :: "'b IRCode option"
  no_optimizations :: bool
  is_static :: bool
  get_class :: dex_type
  get_args :: "dex_type list"

text \<open>\<^verbatim>\<open>ConfigFiles\<close>: the configured pure methods, in the order their container yields them.\<close>

record ConfigFiles =
  conf_pure_methods :: "method_ref list"

text \<open>The pass object: the two members that \<^verbatim>\<open>bind_config\<close> binds.\<close>

record CommonSubexpressionEliminationPass =
  m_debug :: bool
  m_runtime_assertions :: bool

text \<open>A failed \<^verbatim>\<open>always_assert\<close> aborts the process.\<close>

datatype abort = AssertionFailed

text \<open>
  The collaborators. \<open>cse_patch\<close> is the construction of a
  \<^verbatim>\<open>CommonSubexpressionElimination\<close> on the shared state and \<^verbatim>\<open>code->cfg()\<close>, the call of
  \<^verbatim>\<open>patch\<close> and of \<^verbatim>\<open>get_stats\<close>: it yields \<^verbatim>\<open>any_changes\<close>, the statistics and the
  patched graph. Copy propagation and dead code elimination are handed the \<^verbatim>\<open>IRCode\<close>.
\<close>

record ('b, 'ss) collaborators =
  get_pure_methods :: "method_ref set"
  new_SharedState :: "method_ref set \<Rightarrow> 'ss"
  init_scope :: "'ss \<Rightarrow> 'b DexMethod list \<Rightarrow> 'ss"
  shared_pure_methods :: "'ss \<Rightarrow> method_ref set"
  shared_stats :: "'ss \<Rightarrow> SharedStateStats"
  cse_patch :: "'ss \<Rightarrow> 'b \<Rightarrow> bool \<Rightarrow> dex_type \<Rightarrow> dex_type list \<Rightarrow> counter \<Rightarrow> bool
                 \<Rightarrow> bool \<times> Stats \<times> 'b"
  default_Config :: Config
  copy_propagation_run :: "Config \<Rightarrow> 'b IRCode \<Rightarrow> 'b DexMethod \<Rightarrow> 'b IRCode"
  local_dce :: "method_ref set \<Rightarrow> 'b IRCode \<Rightarrow> 'b IRCode"
  default_num_threads :: nat
  show_opcode :: "opcode_key \<Rightarrow> string"

subsection \<open>Metric names\<close>

definition METRIC_RESULTS_CAPTURED :: string where
  "METRIC_RESULTS_CAPTURED = ''num_results_captured''"
definition METRIC_STORES_CAPTURED :: string where
  "METRIC_STORES_CAPTURED = ''num_stores_captured''"
definition METRIC_ARRAY_LENGTHS_CAPTURED :: string where
  "METRIC_ARRAY_LENGTHS_CAPTURED = ''num_array_lengths_captured''"
definition METRIC_ELIMINATED_INSTRUCTIONS :: string where
  "METRIC_ELIMINATED_INSTRUCTIONS = ''num_eliminated_instructions''"
definition METRIC_MAX_VALUE_IDS :: string where
  "METRIC_MAX_VALUE_IDS = ''max_value_ids''"
definition METRIC_METHODS_USING_OTHER_TRACKED_LOCATION_BIT :: string where
  "METRIC_METHODS_USING_OTHER_TRACKED_LOCATION_BIT = ''methods_using_other_tracked_location_bit''"
definition METRIC_INSTR_PREFIX :: string where
  "METRIC_INSTR_PREFIX = ''instr_''"
definition METRIC_METHOD_BARRIERS :: string where
  "METRIC_METHOD_BARRIERS = ''num_method_barriers''"
definition METRIC_METHOD_BARRIERS_ITERATIONS :: string where
  "METRIC_METHOD_BARRIERS_ITERATIONS = ''num_method_barriers_iterations''"
definition METRIC_CONDITIONALLY_PURE_METHODS :: string where
  "METRIC_CONDITIONALLY_PURE_METHODS = ''num_conditionally_pure_methods''"
definition METRIC_CONDITIONALLY_PURE_METHODS_ITERATIONS :: string where
  "METRIC_CONDITIONALLY_PURE_METHODS_ITERATIONS = ''num_conditionally_pure_methods_iterations''"
definition METRIC_SKIPPED_DUE_TO_TOO_MANY_REGISTERS :: string where
  "METRIC_SKIPPED_DUE_TO_TOO_MANY_REGISTERS = ''num_skipped_due_to_too_many_registers''"
definition METRIC_MAX_ITERATIONS :: string where
  "METRIC_MAX_ITERATIONS = ''num_max_iterations''"

subsection \<open>Maps of counters\<close>

text \<open>
  \<^verbatim>\<open>m[k] += v\<close> on a map of counters: \<^verbatim>\<open>operator[]\<close> inserts a zero for a key that is
  absent. \<open>entries\<close> is the sequence a range-for loop over the map visits; the order of
  an unordered map is unspecified, and the keys are taken in increasing order.
\<close>

definition subscript_add :: "('k \<rightharpoonup> counter) \<Rightarrow> 'k \<Rightarrow> counter \<Rightarrow> ('k \<rightharpoonup> counter)" where
  "subscript_add m k v = m(k \<mapsto> (case m k of None \<Rightarrow> 0 | Some c \<Rightarrow> c) + v)"

definition entries :: "('k::linorder \<rightharpoonup> counter) \<Rightarrow> ('k \<times> counter) list" where
  "entries m = map (\<lambda>k. (k, the (m k))) (sorted_list_of_set (dom m))"

subsection \<open>\<^verbatim>\<open>bind_config\<close>\<close>

text \<open>
  Modelled from the spec: \<^verbatim>\<open>bind\<close> is declared outside this file. It reads the named
  entry of the pass's configuration and takes the default when there is none.
\<close>

definition bind :: "(string \<rightharpoonup> bool) \<Rightarrow> string \<Rightarrow> bool \<Rightarrow> bool" where
  "bind json name dflt = (case json name of None \<Rightarrow> dflt | Some v \<Rightarrow> v)"

definition bind_config :: "(string \<rightharpoonup> bool) \<Rightarrow> CommonSubexpressionEliminationPass" where
  "bind_config json =
     \<lparr> m_debug = bind json ''debug'' False,
       m_runtime_assertions = bind json ''runtime_assertions'' False \<rparr>"

subsection \<open>\<^verbatim>\<open>run_pass\<close>, stage by stage\<close>

text \<open>Lines 54--56: every method that has code gets its editable CFG built.\<close>

definition build_cfgs :: "'b DexMethod list \<Rightarrow> 'b DexMethod list" where
  "build_cfgs scope =
     map (\<lambda>method. case get_code method of
                     None \<Rightarrow> method
                   | Some code \<Rightarrow> method\<lparr>get_code := Some (build_cfg code)\<rparr>) scope"

text \<open>
  Lines 58--61: the allow-list of the framework, then a range insert of the configured
  methods, one element after the other.
\<close>

definition pure_methods :: "('b, 'ss) collaborators \<Rightarrow> ConfigFiles \<Rightarrow> method_ref set" where
  "pure_methods env conf = fold insert (conf_pure_methods conf) (get_pure_methods env)"

text \<open>Lines 63--64: the shared state is built on that set, then initialised on the scope.\<close>

definition make_shared_state ::
  "('b, 'ss) collaborators \<Rightarrow> ConfigFiles \<Rightarrow> 'b DexMethod list \<Rightarrow> 'ss" where
  "make_shared_state env conf scope =
     init_scope env (new_SharedState env (pure_methods env conf)) scope"

text \<open>Lines 68--71.\<close>

definition copy_prop_config :: "('b, 'ss) collaborators \<Rightarrow> Config" where
  "copy_prop_config env =
     (default_Config env)\<lparr> eliminate_const_classes := False,
                           eliminate_const_strings := False,
                           static_finals := False \<rparr>"

text \<open>Lines 73--87.\<close>

definition aggregate_stats :: "Stats \<Rightarrow> Stats \<Rightarrow> Stats" where
  "aggregate_stats a b =
     a\<lparr> results_captured := results_captured a + results_captured b,
        stores_captured := stores_captured a + stores_captured b,
        array_lengths_captured := array_lengths_captured a + array_lengths_captured b,
        instructions_eliminated := instructions_eliminated a + instructions_eliminated b,
        max_value_ids := max (max_value_ids a) (max_value_ids b),
        methods_using_other_tracked_location_bit :=
          methods_using_other_tracked_location_bit a
            + methods_using_other_tracked_location_bit b,
        eliminated_opcodes :=
          fold (\<lambda>p acc. subscript_add acc (fst p) (snd p)) (entries (eliminated_opcodes b))
            (eliminated_opcodes a),
        skipped_due_to_too_many_registers :=
          skipped_due_to_too_many_registers a + skipped_due_to_too_many_registers b,
        max_iterations := max (max_iterations a) (max_iterations b) \<rparr>"

text \<open>
  Lines 101--134, the \<^verbatim>\<open>while (true)\<close> loop of the mapper. The only way out is the
  \<^verbatim>\<open>return\<close> under \<^verbatim>\<open>!any_changes\<close> (or the abort of \<^verbatim>\<open>always_assert\<close>); a run that
  never leaves the loop is \<open>None\<close>.
\<close>

partial_function (option) rewrite_loop ::
  "('b, 'ss) collaborators \<Rightarrow> 'ss \<Rightarrow> Config \<Rightarrow> bool \<Rightarrow> 'b DexMethod \<Rightarrow> Stats \<Rightarrow> 'b IRCode
     \<Rightarrow> (abort + Stats \<times> 'b IRCode) option" where
  "rewrite_loop env shared_state config runtime_assertions method stats code =
     (let stats1 = stats\<lparr>max_iterations := max_iterations stats + 1\<rparr> in
      if \<not> editable_cfg_built code then Some (Inl AssertionFailed)
      else
        (case cse_patch env shared_state (body code) (is_static method) (get_class method)
                (get_args method) (max_estimated_registers config) runtime_assertions of
           (any_changes, cse_stats, cfg) \<Rightarrow>
             let stats2 = aggregate_stats stats1 cse_stats;
                 code1 = clear_cfg (code\<lparr>body := cfg\<rparr>)
             in if \<not> any_changes then Some (Inr (stats2, code1))
                else
                  let code2 = copy_propagation_run env config code1
                                (method\<lparr>get_code := Some code1\<rparr>);
                      code3 = build_cfg code2;
                      code4 = local_dce env (shared_pure_methods env shared_state) code3
                  in rewrite_loop env shared_state config runtime_assertions method
                       stats2 code4))"

text \<open>Lines 90--135, the mapper: the statistics of the method, and the method as it is left.\<close>

definition per_method ::
  "('b, 'ss) collaborators \<Rightarrow> 'ss \<Rightarrow> Config \<Rightarrow> bool \<Rightarrow> 'b DexMethod
     \<Rightarrow> (abort + Stats \<times> 'b DexMethod) option" where
  "per_method env shared_state config runtime_assertions method =
     (case get_code method of
        None \<Rightarrow> Some (Inr (Stats_default, method))
      | Some code \<Rightarrow>
          if no_optimizations method
          then Some (Inr (Stats_default, method\<lparr>get_code := Some (clear_cfg code)\<rparr>))
          else
            (case rewrite_loop env shared_state config runtime_assertions method
                    Stats_default code of
               None \<Rightarrow> None
             | Some (Inl e) \<Rightarrow> Some (Inl e)
             | Some (Inr (stats, code')) \<Rightarrow>
                 Some (Inr (stats, method\<lparr>get_code := Some code'\<rparr>))))"

text \<open>Line 138, the number of threads handed to the reduction.\<close>

definition num_threads ::
  "('b, 'ss) collaborators \<Rightarrow> CommonSubexpressionEliminationPass \<Rightarrow> nat" where
  "num_threads env pass = (if m_debug pass then 1 else default_num_threads env)"

text \<open>
  Modelled from the spec: \<^verbatim>\<open>walk::parallel::reduce_methods\<close> is declared outside this
  file. "Independent worker tasks process disjoint methods", "each worker runs its method
  to completion", and the results "are combined with [the] reduction". \<open>reduce_methods\<close>
  is the reduction itself: it runs the methods of the scope one after the other and
  merges each result into the total, from \<open>init\<close>; a method whose mapper aborts or never
  returns ends the run. The number of threads has no part in the totals.
\<close>

fun reduce_methods ::
  "('m \<Rightarrow> (abort + 'o \<times> 'm) option) \<Rightarrow> ('o \<Rightarrow> 'o \<Rightarrow> 'o) \<Rightarrow> 'o \<Rightarrow> nat \<Rightarrow> 'm list
     \<Rightarrow> (abort + 'o \<times> 'm list) option" where
  "reduce_methods mapper reducer init n [] = Some (Inr (init, []))"
| "reduce_methods mapper reducer init n (m # ms) =
     (case mapper m of
        None \<Rightarrow> None
      | Some (Inl e) \<Rightarrow> Some (Inl e)
      | Some (Inr (out, m')) \<Rightarrow>
          (case reduce_methods mapper reducer (reducer init out) n ms of
             None \<Rightarrow> None
           | Some (Inl e) \<Rightarrow> Some (Inl e)
           | Some (Inr (acc, ms')) \<Rightarrow> Some (Inr (acc, m' # ms'))))"

text \<open>
  Modelled from the spec: the call of \<^verbatim>\<open>walk::parallel::reduce_methods\<close> as the pass
  sees it. It starts as many workers as it is told ("parallelism degree"), runs the
  reduction on them, and what it leaves is the outcome of the reduction together with the
  number of workers that ran it.
\<close>

definition parallel_reduce_methods ::
  "('m \<Rightarrow> (abort + 'o \<times> 'm) option) \<Rightarrow> ('o \<Rightarrow> 'o \<Rightarrow> 'o) \<Rightarrow> 'o \<Rightarrow> nat \<Rightarrow> 'm list
     \<Rightarrow> (abort + ('o \<times> 'm list) \<times> nat) option" where
  "parallel_reduce_methods mapper reducer init workers scope =
     (case reduce_methods mapper reducer init workers scope of
        None \<Rightarrow> None
      | Some (Inl e) \<Rightarrow> Some (Inl e)
      | Some (Inr out) \<Rightarrow> Some (Inr (out, workers)))"

text \<open>
  Modelled from the spec: \<^verbatim>\<open>PassManager::incr_metric\<close> is declared outside this file; the
  metrics sink "accepts named counters". A metric is a 64-bit counter under its name, and
  \<^verbatim>\<open>incr_metric\<close> adds to it.
\<close>

definition incr_metric :: "(string \<rightharpoonup> counter) \<Rightarrow> string \<Rightarrow> counter \<Rightarrow> (string \<rightharpoonup> counter)" where
  "incr_metric mgr name v = subscript_add mgr name v"

text \<open>Lines 139--162.\<close>

definition report_metrics ::
  "('b, 'ss) collaborators \<Rightarrow> Stats \<Rightarrow> SharedStateStats \<Rightarrow> (string \<rightharpoonup> counter)
     \<Rightarrow> (string \<rightharpoonup> counter)" where
  "report_metrics env stats shared_state_stats mgr0 =
     (let mgr1 = incr_metric mgr0 METRIC_RESULTS_CAPTURED (results_captured stats);
          mgr2 = incr_metric mgr1 METRIC_STORES_CAPTURED (stores_captured stats);
          mgr3 = incr_metric mgr2 METRIC_ARRAY_LENGTHS_CAPTURED (array_lengths_captured stats);
          mgr4 = incr_metric mgr3 METRIC_ELIMINATED_INSTRUCTIONS
                   (instructions_eliminated stats);
          mgr5 = incr_metric mgr4 METRIC_MAX_VALUE_IDS (max_value_ids stats);
          mgr6 = incr_metric mgr5 METRIC_METHODS_USING_OTHER_TRACKED_LOCATION_BIT
                   (methods_using_other_tracked_location_bit stats);
          mgr7 = incr_metric mgr6 METRIC_METHOD_BARRIERS (method_barriers shared_state_stats);
          mgr8 = incr_metric mgr7 METRIC_METHOD_BARRIERS_ITERATIONS
                   (method_barriers_iterations shared_state_stats);
          mgr9 = incr_metric mgr8 METRIC_CONDITIONALLY_PURE_METHODS
                   (conditionally_pure_methods shared_state_stats);
          mgr10 = incr_metric mgr9 METRIC_CONDITIONALLY_PURE_METHODS_ITERATIONS
                    (conditionally_pure_methods_iterations shared_state_stats);
          mgr11 = fold (\<lambda>p mgr. incr_metric mgr (METRIC_INSTR_PREFIX @ show_opcode env (fst p))
                                  (snd p))
                    (entries (eliminated_opcodes stats)) mgr10;
          mgr12 = incr_metric mgr11 METRIC_SKIPPED_DUE_TO_TOO_MANY_REGISTERS
                    (skipped_due_to_too_many_registers stats)
      in incr_metric mgr12 METRIC_MAX_ITERATIONS (max_iterations stats))"

text \<open>
  What a run of the pass leaves: the methods of the scope, the metrics of the pass
  manager, and the number of workers that ran the reduction.
\<close>

record 'b pass_result =
  scope_after :: "'b DexMethod list"
  metrics_after :: "string \<rightharpoonup> counter"
  threads :: nat

text \<open>
  \<^verbatim>\<open>run_pass\<close>. The scope is the list of the methods of \<^verbatim>\<open>build_class_scope(stores)\<close>.
  \<^verbatim>\<open>shared_state.cleanup()\<close>, the last statement, releases what the shared state holds and
  leaves no trace in the result.
\<close>

definition run_pass ::
  "('b, 'ss) collaborators \<Rightarrow> CommonSubexpressionEliminationPass \<Rightarrow> 'b DexMethod list
     \<Rightarrow> ConfigFiles \<Rightarrow> (string \<rightharpoonup> counter) \<Rightarrow> (abort + 'b pass_result) option" where
  "run_pass env pass scope0 conf mgr =
     (let scope = build_cfgs scope0;
          shared_state = make_shared_state env conf scope
      in case parallel_reduce_methods
                (per_method env shared_state (copy_prop_config env) (m_runtime_assertions pass))
                aggregate_stats Stats_default (num_threads env pass) scope of
           None \<Rightarrow> None
         | Some (Inl e) \<Rightarrow> Some (Inl e)
         | Some (Inr ((stats, scope'), workers)) \<Rightarrow>
             Some (Inr \<lparr> scope_after = scope',
                         metrics_after =
                           report_metrics env stats (shared_stats env shared_state) mgr,
                         threads = workers \<rparr>))"

subsection \<open>The loop, iteration by iteration\<close>

text \<open>
  The pieces of one iteration of the loop, named so that statements about the loop can
  speak of its \<open>n\<close>-th iteration: what \<^verbatim>\<open>patch\<close> answers, the statistics and the code
  after line 112, and the code after line 129.
\<close>

definition any_changes ::
  "('b, 'ss) collaborators \<Rightarrow> 'ss \<Rightarrow> Config \<Rightarrow> bool \<Rightarrow> 'b DexMethod \<Rightarrow> 'b IRCode \<Rightarrow> bool" where
  "any_changes env shared_state config runtime_assertions method code =
     fst (cse_patch env shared_state (body code) (is_static method) (get_class method)
            (get_args method) (max_estimated_registers config) runtime_assertions)"

definition stats_after_patch ::
  "('b, 'ss) collaborators \<Rightarrow> 'ss \<Rightarrow> Config \<Rightarrow> bool \<Rightarrow> 'b DexMethod \<Rightarrow> Stats \<Rightarrow> 'b IRCode
     \<Rightarrow> Stats" where
  "stats_after_patch env shared_state config runtime_assertions method stats code =
     aggregate_stats (stats\<lparr>max_iterations := max_iterations stats + 1\<rparr>)
       (fst (snd (cse_patch env shared_state (body code) (is_static method) (get_class method)
                    (get_args method) (max_estimated_registers config) runtime_assertions)))"

definition code_after_patch ::
  "('b, 'ss) collaborators \<Rightarrow> 'ss \<Rightarrow> Config \<Rightarrow> bool \<Rightarrow> 'b DexMethod \<Rightarrow> 'b IRCode
     \<Rightarrow> 'b IRCode" where
  "code_after_patch env shared_state config runtime_assertions method code =
     clear_cfg (code\<lparr>body :=
       snd (snd (cse_patch env shared_state (body code) (is_static method) (get_class method)
                   (get_args method) (max_estimated_registers config) runtime_assertions))\<rparr>)"

definition code_after_iteration ::
  "('b, 'ss) collaborators \<Rightarrow> 'ss \<Rightarrow> Config \<Rightarrow> bool \<Rightarrow> 'b DexMethod \<Rightarrow> 'b IRCode
     \<Rightarrow> 'b IRCode" where
  "code_after_iteration env shared_state config runtime_assertions method code =
     (let code1 = code_after_patch env shared_state config runtime_assertions method code
      in local_dce env (shared_pure_methods env shared_state)
           (build_cfg (copy_propagation_run env config code1
                         (method\<lparr>get_code := Some code1\<rparr>))))"

text \<open>
  The loop is left in its iteration \<open>n\<close> (counted from 0, every one before it having gone
  round): the assertion fails there, or \<^verbatim>\<open>patch\<close> reports no change.
\<close>

definition leaves_loop ::
  "('b, 'ss) collaborators \<Rightarrow> 'ss \<Rightarrow> Config \<Rightarrow> bool \<Rightarrow> 'b DexMethod \<Rightarrow> 'b IRCode \<Rightarrow> nat
     \<Rightarrow> bool" where
  "leaves_loop env shared_state config runtime_assertions method code n =
     (let c = (code_after_iteration env shared_state config runtime_assertions method ^^ n) code
      in \<not> (editable_cfg_built c
             \<and> any_changes env shared_state config runtime_assertions method c))"

text \<open>The statistics a result of the mapper carries; none when the mapper did not return.\<close>

definition stats_of :: "(abort + Stats \<times> 'm) option \<Rightarrow> Stats" where
  "stats_of r = (case r of Some (Inr (stats, m)) \<Rightarrow> stats | _ \<Rightarrow> Stats_default)"

text \<open>
  Two contracts of collaborators that statements below name. Dead code elimination
  leaves an editable CFG built; the engine's own statistics leave \<^verbatim>\<open>max_iterations\<close> at
  the zero it is constructed with (the driver alone counts iterations).
\<close>

definition dce_keeps_cfg :: "('b, 'ss) collaborators \<Rightarrow> bool" where
  "dce_keeps_cfg env =
     (\<forall>pure code. editable_cfg_built code \<longrightarrow> editable_cfg_built (local_dce env pure code))"

definition cse_counts_no_iterations :: "('b, 'ss) collaborators \<Rightarrow> bool" where
  "cse_counts_no_iterations env =
     (\<forall>ss cfg static cls args regs ra.
        max_iterations (fst (snd (cse_patch env ss cfg static cls args regs ra))) = 0)"

subsection \<open>A small instance\<close>

text \<open>
  Collaborators on which the definitions can be run. The body of a method is the number
  of redundant instructions left in it: \<^verbatim>\<open>patch\<close> removes one and reports a change while
  there is one, an \<^verbatim>\<open>add-int\<close> (opcode 144). The shared state is its set of pure
  methods.
\<close>

definition example_env :: "(nat, method_ref set) collaborators" where
  "example_env =
     \<lparr> get_pure_methods = {''Ljava/lang/Math;.abs:(I)I''},
       new_SharedState = (\<lambda>pure. pure),
       init_scope = (\<lambda>ss scope. ss),
       shared_pure_methods = (\<lambda>ss. ss),
       shared_stats = (\<lambda>ss. \<lparr> method_barriers = 0, method_barriers_iterations = 1,
                               conditionally_pure_methods = 0,
                               conditionally_pure_methods_iterations = 1 \<rparr>),
       cse_patch = (\<lambda>ss cfg static cls args regs ra.
                      (0 < cfg,
                       (if 0 < cfg
                        then Stats_default\<lparr> instructions_eliminated := 1,
                                             eliminated_opcodes := [144 \<mapsto> 1] \<rparr>
                        else Stats_default),
                       cfg - 1)),
       default_Config = \<lparr> eliminate_const_classes = True, eliminate_const_strings = True,
                          static_finals = True, max_estimated_registers = 3000 \<rparr>,
       copy_propagation_run = (\<lambda>config code method. code),
       local_dce = (\<lambda>pure code. code),
       default_num_threads = 4,
       show_opcode = (\<lambda>k. ''op'') \<rparr>"

text \<open>The same, with an engine that reports a change every time.\<close>

definition oscillating_env :: "(nat, method_ref set) collaborators" where
  "oscillating_env =
     example_env\<lparr>cse_patch := (\<lambda>ss cfg static cls args regs ra. (True, Stats_default, cfg))\<rparr>"

text \<open>A copy propagation that leaves the code alone only when const-strings are off.\<close>

definition eager_copy_propagation :: "Config \<Rightarrow> nat IRCode \<Rightarrow> nat DexMethod \<Rightarrow> nat IRCode" where
  "eager_copy_propagation config code method =
     (if eliminate_const_strings config then code\<lparr>body := 0\<rparr> else code)"

text \<open>
  An engine that looks at the shared state: it finds the redundant instructions only when
  \<^verbatim>\<open>LFoo;.id:(I)I\<close> is known to be pure. And a shared state that is left empty when it is
  constructed on a set without that method.
\<close>

definition purity_env :: "(nat, method_ref set) collaborators" where
  "purity_env =
     example_env\<lparr>cse_patch := (\<lambda>ss cfg static cls args regs ra.
        if ''LFoo;.id:(I)I'' \<in> ss
        then cse_patch example_env ss cfg static cls args regs ra
        else (False, Stats_default, cfg))\<rparr>"

definition strict_SharedState :: "method_ref set \<Rightarrow> method_ref set" where
  "strict_SharedState pure = (if ''LFoo;.id:(I)I'' \<in> pure then pure else {})"

definition example_method :: "nat DexMethod" where
  "example_method =
     \<lparr> get_code = Some \<lparr> body = 2, editable_cfg_built = False \<rparr>,
       no_optimizations = False, is_static = True, get_class = ''LFoo;'', get_args = [] \<rparr>"

definition skipped_method :: "nat DexMethod" where
  "skipped_method = example_method\<lparr>no_optimizations := True\<rparr>"

definition abstract_method :: "nat DexMethod" where
  "abstract_method = example_method\<lparr>get_code := None\<rparr>"

definition example_conf :: ConfigFiles where
  "example_conf = \<lparr> conf_pure_methods = [''LFoo;.id:(I)I'', ''Ljava/lang/Math;.abs:(I)I''] \<rparr>"

definition example_scope :: "nat DexMethod list" where
  "example_scope = [example_method, skipped_method, abstract_method]"

text \<open>The code of \<open>example_method\<close> once its editable CFG is built, and what the loop makes of it.\<close>

definition example_code :: "nat IRCode" where
  "example_code = \<lparr> body = 2, editable_cfg_built = True \<rparr>"

definition example_stats :: Stats where
  "example_stats =
     Stats_default\<lparr> instructions_eliminated := 2, eliminated_opcodes := [144 \<mapsto> 2],
                    max_iterations := 3 \<rparr>"

definition example_result :: "nat pass_result" where
  "example_result =
     \<lparr> scope_after =
         [example_method\<lparr>get_code := Some \<lparr> body = 0, editable_cfg_built = False \<rparr>\<rparr>,
          skipped_method, abstract_method],
       metrics_after =
         [''num_results_captured'' \<mapsto> 0, ''num_stores_captured'' \<mapsto> 0,
          ''num_array_lengths_captured'' \<mapsto> 0, ''num_eliminated_instructions'' \<mapsto> 2,
          ''max_value_ids'' \<mapsto> 0, ''methods_using_other_tracked_location_bit'' \<mapsto> 0,
          ''num_method_barriers'' \<mapsto> 0, ''num_method_barriers_iterations'' \<mapsto> 1,
          ''num_conditionally_pure_methods'' \<mapsto> 0,
          ''num_conditionally_pure_methods_iterations'' \<mapsto> 1,
          ''instr_op'' \<mapsto> 2,
          ''num_skipped_due_to_too_many_registers'' \<mapsto> 0, ''num_max_iterations'' \<mapsto> 3],
       threads = 4 \<rparr>"

section \<open>Properties\<close>

subsection \<open>Maps of counters\<close>

lemma subscript_add_apply:
  "subscript_add m k v x =
     (if x = k then Some ((case m k of None \<Rightarrow> 0 | Some c \<Rightarrow> c) + v) else m x)"
  by (simp add: subscript_add_def)

lemma fold_subscript_add_lookup:
  "distinct (map fst ps) \<Longrightarrow>
   fold (\<lambda>p acc. subscript_add acc (fst p) (snd p)) ps m k =
     (case map_of ps k of None \<Rightarrow> m k
      | Some v \<Rightarrow> Some ((case m k of None \<Rightarrow> 0 | Some c \<Rightarrow> c) + v))"
proof (induction ps arbitrary: m)
  case Nil
  then show ?case by simp
next
  case (Cons p ps)
  show ?case
  proof (cases p)
    case (Pair k' v')
    from Cons.prems have d: "distinct (map fst ps)" and nk: "map_of ps k' = None"
      by (auto simp: Pair map_of_eq_None_iff)
    have "fold (\<lambda>p acc. subscript_add acc (fst p) (snd p)) (p # ps) m k =
          (case map_of ps k of None \<Rightarrow> subscript_add m k' v' k
           | Some v \<Rightarrow> Some ((case subscript_add m k' v' k of None \<Rightarrow> 0 | Some c \<Rightarrow> c) + v))"
      by (simp add: Pair Cons.IH [OF d])
    also have "\<dots> = (case map_of (p # ps) k of None \<Rightarrow> m k
                      | Some v \<Rightarrow> Some ((case m k of None \<Rightarrow> 0 | Some c \<Rightarrow> c) + v))"
      using nk by (auto simp: Pair subscript_add_apply split: option.splits)
    finally show ?thesis .
  qed
qed

lemma map_of_entries: "map_of (entries m) = (m :: opcode_key \<rightharpoonup> counter)"
proof
  fix k
  have fin: "finite (dom m)" by simp
  show "map_of (entries m) k = m k"
    by (cases "m k") (auto simp: entries_def map_of_map_restrict restrict_map_def fin domIff)
qed

lemma distinct_entries: "distinct (map fst (entries (m :: opcode_key \<rightharpoonup> counter)))"
  by (simp add: entries_def comp_def)

lemma merged_opcodes_lookup:
  "fold (\<lambda>p acc. subscript_add acc (fst p) (snd p)) (entries b) a k =
     (case (b :: opcode_key \<rightharpoonup> counter) k of None \<Rightarrow> a k
      | Some v \<Rightarrow> Some ((case a k of None \<Rightarrow> 0 | Some c \<Rightarrow> c) + v))"
  by (simp add: fold_subscript_add_lookup distinct_entries map_of_entries)

subsection \<open>The merge of statistics\<close>

lemma aggregate_stats_assoc:
  "aggregate_stats (aggregate_stats a b) c = aggregate_stats a (aggregate_stats b c)"
  by (auto simp: aggregate_stats_def merged_opcodes_lookup add.assoc max.assoc fun_eq_iff
      split: option.splits)

lemma aggregate_stats_commute: "aggregate_stats a b = aggregate_stats b a"
  by (rule Stats.equality)
     (auto simp: aggregate_stats_def merged_opcodes_lookup add.commute max.commute fun_eq_iff
        split: option.splits)

lemma aggregate_stats_default_left: "aggregate_stats Stats_default b = b"
  by (auto simp: aggregate_stats_def Stats_default_def merged_opcodes_lookup fun_eq_iff
      split: option.splits)

lemma aggregate_stats_default_right: "aggregate_stats a Stats_default = a"
  by (auto simp: aggregate_stats_def Stats_default_def merged_opcodes_lookup fun_eq_iff
      split: option.splits)

lemma aggregate_stats_left_commute:
  "aggregate_stats (aggregate_stats a x) y = aggregate_stats (aggregate_stats a y) x"
  by (metis aggregate_stats_assoc aggregate_stats_commute)

subsection \<open>The reduction over the methods\<close>

lemma reduce_methods_normal:
  "reduce_methods mapper reducer init n ms = Some (Inr (acc, ms')) \<Longrightarrow>
   list_all2 (\<lambda>m m'. \<exists>out. mapper m = Some (Inr (out, m'))) ms ms'"
proof (induction ms arbitrary: init acc ms')
  case Nil
  then show ?case by simp
next
  case (Cons m ms)
  then show ?case
    by (auto split: option.splits sum.splits prod.splits)
qed

lemma reduce_methods_total:
  "reduce_methods mapper aggregate_stats init n ms = Some (Inr (acc, ms')) \<Longrightarrow>
   acc = fold (\<lambda>m a. aggregate_stats a (stats_of (mapper m))) ms init"
proof (induction ms arbitrary: init acc ms')
  case Nil
  then show ?case by simp
next
  case (Cons m ms)
  then show ?case
    by (auto simp: stats_of_def split: option.splits sum.splits prod.splits)
qed

lemma reduce_methods_abort:
  "reduce_methods mapper reducer init n ms = Some (Inl e) \<Longrightarrow>
   \<exists>m \<in> set ms. mapper m = Some (Inl e)"
proof (induction ms arbitrary: init)
  case Nil
  then show ?case by simp
next
  case (Cons m ms)
  then show ?case
    by (auto split: option.splits sum.splits prod.splits)
qed

lemma fold_aggregate_stats_order:
  assumes "mset ms1 = mset ms2"
  shows "fold (\<lambda>m a. aggregate_stats a (f m)) ms1 init
         = fold (\<lambda>m a. aggregate_stats a (f m)) ms2 init"
proof -
  have "fold (\<lambda>m a. aggregate_stats a (f m)) ms1 = fold (\<lambda>m a. aggregate_stats a (f m)) ms2"
    by (rule fold_multiset_equiv [OF _ assms])
       (simp add: fun_eq_iff aggregate_stats_left_commute)
  then show ?thesis by simp
qed

lemma max_iterations_aggregate_stats:
  "max_iterations (aggregate_stats a b) = max (max_iterations a) (max_iterations b)"
  by (simp add: aggregate_stats_def)

lemma max_iterations_fold:
  "max_iterations (fold (\<lambda>m a. aggregate_stats a (f m)) ms init)
   = Max (insert (max_iterations init) ((\<lambda>m. max_iterations (f m)) ` set ms))"
proof (induction ms arbitrary: init)
  case Nil
  then show ?case by simp
next
  case (Cons m ms)
  show ?case
    by (cases "ms = []")
       (simp_all add: Cons.IH max_iterations_aggregate_stats max.assoc)
qed

subsection \<open>The loop\<close>

lemmas loop_body_defs =
  Let_def any_changes_def stats_after_patch_def code_after_patch_def code_after_iteration_def

lemma rewrite_loop_unfold:
  "rewrite_loop env ss config ra meth stats code =
     (if \<not> editable_cfg_built code then Some (Inl AssertionFailed)
      else if \<not> any_changes env ss config ra meth code
      then Some (Inr (stats_after_patch env ss config ra meth stats code,
                      code_after_patch env ss config ra meth code))
      else rewrite_loop env ss config ra meth
             (stats_after_patch env ss config ra meth stats code)
             (code_after_iteration env ss config ra meth code))"
  by (subst rewrite_loop.simps) (simp add: loop_body_defs split: prod.splits)

lemma leaves_loop_Suc:
  "leaves_loop env ss config ra meth code (Suc n)
   = leaves_loop env ss config ra meth (code_after_iteration env ss config ra meth code) n"
  by (simp add: leaves_loop_def funpow_swap1)

lemma leaves_loop_0:
  "leaves_loop env ss config ra meth code 0
   = (\<not> (editable_cfg_built code \<and> any_changes env ss config ra meth code))"
  by (simp add: leaves_loop_def)

lemma leaves_loop_returns:
  "leaves_loop env ss config ra meth code n \<Longrightarrow>
   rewrite_loop env ss config ra meth stats code \<noteq> None"
proof (induction n arbitrary: stats code)
  case 0
  then show ?case
    by (subst rewrite_loop_unfold) (auto simp: leaves_loop_0)
next
  case (Suc n)
  from Suc.prems
  have "rewrite_loop env ss config ra meth
          (stats_after_patch env ss config ra meth stats code)
          (code_after_iteration env ss config ra meth code) \<noteq> None"
    unfolding leaves_loop_Suc by (rule Suc.IH)
  then show ?case
    by (subst rewrite_loop_unfold) simp
qed

lemma returns_leaves_loop:
  "rewrite_loop env ss config ra meth stats code = Some y \<Longrightarrow>
   \<exists>n. leaves_loop env ss config ra meth code n"
proof (induction rule: rewrite_loop.raw_induct [rotated 1, consumes 1])
  case (1 loop env ss config ra meth stats code y)
  show ?case
  proof (cases "editable_cfg_built code \<and> any_changes env ss config ra meth code")
    case False
    then have "leaves_loop env ss config ra meth code 0"
      by (simp add: leaves_loop_0)
    then show ?thesis ..
  next
    case True
    with 1(2) have "loop env ss config ra meth
                 (stats_after_patch env ss config ra meth stats code)
                 (code_after_iteration env ss config ra meth code) = Some y"
      by (simp add: loop_body_defs split: prod.splits)
    from 1(1) [OF this] obtain n where
      "leaves_loop env ss config ra meth (code_after_iteration env ss config ra meth code) n" ..
    then have "leaves_loop env ss config ra meth code (Suc n)"
      by (simp add: leaves_loop_Suc)
    then show ?thesis ..
  qed
qed

lemma rewrite_loop_clears_cfg:
  "rewrite_loop env ss config ra meth stats code = Some (Inr (stats', code')) \<Longrightarrow>
   \<not> editable_cfg_built code'"
proof (induction env ss config ra meth stats code
    "Inr (stats', code') :: abort + Stats \<times> 'a IRCode"
    rule: rewrite_loop.raw_induct [rotated 1, consumes 1])
  case (1 loop env ss config ra meth stats code)
  then show ?case
    by (auto simp: Let_def clear_cfg_def split: if_splits prod.splits)
qed

lemma rewrite_loop_assertion_holds:
  "rewrite_loop env ss config ra meth stats code = Some y \<Longrightarrow>
   dce_keeps_cfg env \<Longrightarrow> editable_cfg_built code \<Longrightarrow> y \<noteq> Inl e"
proof (induction rule: rewrite_loop.raw_induct [rotated 1, consumes 1])
  case (1 loop env ss config ra meth stats code y)
  show ?case
  proof (cases "any_changes env ss config ra meth code")
    case False
    with 1(2) 1(4) show ?thesis
      by (auto simp: loop_body_defs split: prod.splits)
  next
    case True
    with 1(2) 1(4) have step: "loop env ss config ra meth
                 (stats_after_patch env ss config ra meth stats code)
                 (code_after_iteration env ss config ra meth code) = Some y"
      by (simp add: loop_body_defs split: prod.splits)
    have "editable_cfg_built (code_after_iteration env ss config ra meth code)"
      using 1(3) by (simp add: dce_keeps_cfg_def code_after_iteration_def build_cfg_def Let_def)
    with 1(1) [OF step 1(3)] show ?thesis .
  qed
qed

lemma max_iterations_stats_after_patch:
  "cse_counts_no_iterations env \<Longrightarrow>
   max_iterations (stats_after_patch env ss config ra meth stats code)
   = max_iterations stats + 1"
  by (simp add: stats_after_patch_def max_iterations_aggregate_stats
      cse_counts_no_iterations_def max_def)

lemma rewrite_loop_counts:
  "rewrite_loop env ss config ra meth stats code = Some (Inr (stats', code')) \<Longrightarrow>
   cse_counts_no_iterations env \<Longrightarrow>
   \<exists>n. leaves_loop env ss config ra meth code n
       \<and> (\<forall>k<n. \<not> leaves_loop env ss config ra meth code k)
       \<and> max_iterations stats' = max_iterations stats + of_nat (Suc n)"
proof (induction env ss config ra meth stats code
    "Inr (stats', code') :: abort + Stats \<times> 'a IRCode"
    rule: rewrite_loop.raw_induct [rotated 1, consumes 1])
  case (1 loop env ss config ra meth stats code)
  from 1(2) have built: "editable_cfg_built code"
    by (auto simp: Let_def split: if_splits)
  show ?case
  proof (cases "any_changes env ss config ra meth code")
    case False
    with 1(2) built have "stats' = stats_after_patch env ss config ra meth stats code"
      by (auto simp: loop_body_defs split: prod.splits)
    then have "max_iterations stats' = max_iterations stats + of_nat (Suc 0)"
      using 1(3) by (simp add: max_iterations_stats_after_patch)
    moreover have "leaves_loop env ss config ra meth code 0"
      using False by (simp add: leaves_loop_0)
    ultimately show ?thesis by blast
  next
    case True
    with 1(2) built have step: "loop env ss config ra meth
                 (stats_after_patch env ss config ra meth stats code)
                 (code_after_iteration env ss config ra meth code) = Some (Inr (stats', code'))"
      by (simp add: loop_body_defs split: prod.splits)
    from 1(1) [OF step 1(3)] obtain n where
      n: "leaves_loop env ss config ra meth (code_after_iteration env ss config ra meth code) n"
         "\<forall>k<n. \<not> leaves_loop env ss config ra meth
                      (code_after_iteration env ss config ra meth code) k"
         "max_iterations stats'
          = max_iterations (stats_after_patch env ss config ra meth stats code) + of_nat (Suc n)"
      by blast
    have "leaves_loop env ss config ra meth code (Suc n)"
      using n(1) by (simp add: leaves_loop_Suc)
    moreover have "\<forall>k<Suc n. \<not> leaves_loop env ss config ra meth code k"
    proof (intro allI impI)
      fix k assume "k < Suc n"
      then show "\<not> leaves_loop env ss config ra meth code k"
        using n(2) True built by (cases k) (simp_all add: leaves_loop_0 leaves_loop_Suc)
    qed
    moreover have "max_iterations stats' = max_iterations stats + of_nat (Suc (Suc n))"
      using n(3) 1(3) by (simp add: max_iterations_stats_after_patch)
    ultimately show ?thesis by blast
  qed
qed

lemma rewrite_loop_copy_propagation_cong:
  assumes same: "\<And>code meth. cp config code meth = copy_propagation_run env config code meth"
  shows "rewrite_loop (env\<lparr>copy_propagation_run := cp\<rparr>) ss config ra meth stats code
         = rewrite_loop env ss config ra meth stats code"
proof -
  have fwd: "rewrite_loop env' ss' config' ra meth stats code = Some y \<Longrightarrow>
      env' = env\<lparr>copy_propagation_run := cp\<rparr> \<Longrightarrow> config' = config \<Longrightarrow>
      rewrite_loop env ss' config ra meth stats code = Some y"
    for env' ss' config' ra meth stats code y
  proof (induction rule: rewrite_loop.raw_induct [rotated 1, consumes 1])
    case (1 loop env' ss' config' ra meth stats code y)
    show ?case
      using 1(2) 1(1) [OF _ 1(3) 1(4)]
      by (subst rewrite_loop.simps)
         (auto simp: Let_def 1(3) 1(4) same split: if_splits prod.splits)
  qed
  have bwd: "rewrite_loop env' ss' config' ra meth stats code = Some y \<Longrightarrow>
      env' = env \<Longrightarrow> config' = config \<Longrightarrow>
      rewrite_loop (env\<lparr>copy_propagation_run := cp\<rparr>) ss' config ra meth stats code = Some y"
    for env' ss' config' ra meth stats code y
  proof (induction rule: rewrite_loop.raw_induct [rotated 1, consumes 1])
    case (1 loop env' ss' config' ra meth stats code y)
    show ?case
      using 1(2) 1(1) [OF _ 1(3) 1(4)]
      by (subst rewrite_loop.simps)
         (auto simp: Let_def 1(3) 1(4) same split: if_splits prod.splits)
  qed
  show ?thesis
  proof (cases "rewrite_loop env ss config ra meth stats code")
    case None
    then show ?thesis
      using fwd [of "env\<lparr>copy_propagation_run := cp\<rparr>" ss config ra meth stats code]
      by (cases "rewrite_loop (env\<lparr>copy_propagation_run := cp\<rparr>) ss config ra meth stats code")
         auto
  next
    case (Some y)
    then show ?thesis
      using bwd [of env ss config ra meth stats code y] by simp
  qed
qed

lemma rewrite_loop_first_exit:
  "rewrite_loop env ss config ra meth stats code = Some (Inr (stats', code')) \<Longrightarrow>
   \<exists>n. leaves_loop env ss config ra meth code n
       \<and> (\<forall>k\<le>n. editable_cfg_built ((code_after_iteration env ss config ra meth ^^ k) code))"
proof (induction env ss config ra meth stats code
    "Inr (stats', code') :: abort + Stats \<times> 'a IRCode"
    rule: rewrite_loop.raw_induct [rotated 1, consumes 1])
  case (1 loop env ss config ra meth stats code)
  from 1(2) have built: "editable_cfg_built code"
    by (auto simp: Let_def split: if_splits)
  show ?case
  proof (cases "any_changes env ss config ra meth code")
    case False
    then have "leaves_loop env ss config ra meth code 0"
      by (simp add: leaves_loop_0)
    moreover have "\<forall>k\<le>0. editable_cfg_built ((code_after_iteration env ss config ra meth ^^ k) code)"
      using built by simp
    ultimately show ?thesis by blast
  next
    case True
    with 1(2) built have step: "loop env ss config ra meth
                 (stats_after_patch env ss config ra meth stats code)
                 (code_after_iteration env ss config ra meth code) = Some (Inr (stats', code'))"
      by (simp add: loop_body_defs split: prod.splits)
    from 1(1) [OF step] obtain n where
      n: "leaves_loop env ss config ra meth (code_after_iteration env ss config ra meth code) n"
         "\<forall>k\<le>n. editable_cfg_built ((code_after_iteration env ss config ra meth ^^ k)
                     (code_after_iteration env ss config ra meth code))"
      by blast
    have "leaves_loop env ss config ra meth code (Suc n)"
      using n(1) by (simp add: leaves_loop_Suc)
    moreover have "\<forall>k\<le>Suc n. editable_cfg_built ((code_after_iteration env ss config ra meth ^^ k) code)"
    proof (intro allI impI)
      fix k assume "k \<le> Suc n"
      then show "editable_cfg_built ((code_after_iteration env ss config ra meth ^^ k) code)"
        using n(2) built by (cases k) (simp_all add: funpow_swap1)
    qed
    ultimately show ?thesis by blast
  qed
qed

lemma rewrite_loop_normal_return:
  "leaves_loop env ss config ra meth code n \<Longrightarrow>
   \<forall>k\<le>n. editable_cfg_built ((code_after_iteration env ss config ra meth ^^ k) code) \<Longrightarrow>
   \<exists>r. rewrite_loop env ss config ra meth stats code = Some (Inr r)"
proof (induction n arbitrary: stats code)
  case 0
  then show ?case
    by (subst rewrite_loop_unfold) (auto simp: leaves_loop_0)
next
  case (Suc n)
  from Suc.prems(2) have built: "editable_cfg_built code"
    by (auto dest: spec [of _ 0])
  have "\<forall>k\<le>n. editable_cfg_built ((code_after_iteration env ss config ra meth ^^ k)
                  (code_after_iteration env ss config ra meth code))"
  proof (intro allI impI)
    fix k assume "k \<le> n"
    with Suc.prems(2) have "editable_cfg_built
        ((code_after_iteration env ss config ra meth ^^ Suc k) code)"
      by (auto simp del: funpow.simps)
    then show "editable_cfg_built ((code_after_iteration env ss config ra meth ^^ k)
                  (code_after_iteration env ss config ra meth code))"
      by (simp add: funpow_swap1)
  qed
  with Suc.prems(1)
  have "\<exists>r. rewrite_loop env ss config ra meth
          (stats_after_patch env ss config ra meth stats code)
          (code_after_iteration env ss config ra meth code) = Some (Inr r)"
    unfolding leaves_loop_Suc by (rule Suc.IH)
  then show ?case
    using built by (subst rewrite_loop_unfold) simp
qed

lemma rewrite_loop_env_transfer:
  "rewrite_loop env1 ss config ra meth stats code = Some y \<Longrightarrow>
   cse_patch env1 = cse_patch env2 \<Longrightarrow>
   copy_propagation_run env1 = copy_propagation_run env2 \<Longrightarrow>
   local_dce env1 = local_dce env2 \<Longrightarrow>
   shared_pure_methods env1 = shared_pure_methods env2 \<Longrightarrow>
   rewrite_loop env2 ss config ra meth stats code = Some y"
proof (induction rule: rewrite_loop.raw_induct [rotated 1, consumes 1])
  case (1 loop env1 ss config ra meth stats code y)
  show ?case
    using 1(2) 1(1) [OF _ 1(3) 1(4) 1(5) 1(6)]
    by (subst rewrite_loop.simps)
       (auto simp: Let_def 1(3) [symmetric] 1(4) [symmetric] 1(5) [symmetric] 1(6) [symmetric]
          split: if_splits prod.splits)
qed

lemma rewrite_loop_env_cong:
  assumes "cse_patch env1 = cse_patch env2"
    and "copy_propagation_run env1 = copy_propagation_run env2"
    and "local_dce env1 = local_dce env2"
    and "shared_pure_methods env1 = shared_pure_methods env2"
  shows "rewrite_loop env1 ss config ra meth stats code
         = rewrite_loop env2 ss config ra meth stats code"
proof (cases "rewrite_loop env1 ss config ra meth stats code")
  case None
  show ?thesis
  proof (cases "rewrite_loop env2 ss config ra meth stats code")
    case (Some y)
    from rewrite_loop_env_transfer [OF Some assms [symmetric]] None show ?thesis by simp
  qed (simp add: None)
next
  case (Some y)
  from rewrite_loop_env_transfer [OF Some assms] Some show ?thesis by simp
qed

subsection \<open>The mapper\<close>

lemma per_method_no_code:
  "get_code method = None \<Longrightarrow>
   per_method env ss config ra method = Some (Inr (Stats_default, method))"
  by (simp add: per_method_def)

lemma per_method_no_optimizations:
  "get_code method = Some code \<Longrightarrow> no_optimizations method \<Longrightarrow>
   per_method env ss config ra method
   = Some (Inr (Stats_default, method\<lparr>get_code := Some (clear_cfg code)\<rparr>))"
  by (simp add: per_method_def)

lemma per_method_clears_cfg:
  assumes "per_method env ss config ra method = Some (Inr (stats, method'))"
    and "get_code method' = Some code'"
  shows "\<not> editable_cfg_built code'"
proof (cases "get_code method")
  case None
  with assms show ?thesis by (simp add: per_method_def)
next
  case (Some code)
  show ?thesis
  proof (cases "no_optimizations method")
    case True
    with assms Some show ?thesis by (auto simp: per_method_def clear_cfg_def)
  next
    case False
    with assms Some
    have "rewrite_loop env ss config ra method Stats_default code = Some (Inr (stats, code'))"
      by (auto simp: per_method_def split: option.splits sum.splits prod.splits)
    then show ?thesis by (rule rewrite_loop_clears_cfg)
  qed
qed

lemma per_method_keeps_code:
  "per_method env ss config ra method = Some (Inr (stats, method')) \<Longrightarrow>
   (get_code method' = None) = (get_code method = None)"
  by (auto simp: per_method_def split: option.splits sum.splits prod.splits if_splits)

lemma per_method_assertion_holds:
  assumes "dce_keeps_cfg env" and "\<forall>code. get_code method = Some code \<longrightarrow> editable_cfg_built code"
  shows "per_method env ss config ra method \<noteq> Some (Inl e)"
proof
  assume abort: "per_method env ss config ra method = Some (Inl e)"
  then obtain code where code: "get_code method = Some code"
    and loop: "rewrite_loop env ss config ra method Stats_default code = Some (Inl e)"
    by (auto simp: per_method_def split: option.splits sum.splits prod.splits if_splits)
  from assms(2) code have "editable_cfg_built code" by simp
  from rewrite_loop_assertion_holds [OF loop assms(1) this, of e] show False by simp
qed

lemma build_cfgs_built:
  "method \<in> set (build_cfgs scope) \<Longrightarrow> get_code method = Some code \<Longrightarrow> editable_cfg_built code"
  by (auto simp: build_cfgs_def build_cfg_def split: option.splits)


subsection \<open>The instance, run\<close>

lemmas example_defs =
  example_env_def oscillating_env_def example_method_def skipped_method_def
  abstract_method_def example_conf_def example_scope_def example_code_def example_stats_def
  example_result_def eager_copy_propagation_def

lemmas metric_names =
  METRIC_RESULTS_CAPTURED_def METRIC_STORES_CAPTURED_def METRIC_ARRAY_LENGTHS_CAPTURED_def
  METRIC_ELIMINATED_INSTRUCTIONS_def METRIC_MAX_VALUE_IDS_def
  METRIC_METHODS_USING_OTHER_TRACKED_LOCATION_BIT_def METRIC_INSTR_PREFIX_def
  METRIC_METHOD_BARRIERS_def METRIC_METHOD_BARRIERS_ITERATIONS_def
  METRIC_CONDITIONALLY_PURE_METHODS_def METRIC_CONDITIONALLY_PURE_METHODS_ITERATIONS_def
  METRIC_SKIPPED_DUE_TO_TOO_MANY_REGISTERS_def METRIC_MAX_ITERATIONS_def

lemmas run_defs =
  rewrite_loop_unfold loop_body_defs build_cfg_def clear_cfg_def aggregate_stats_def
  Stats_default_def entries_def subscript_add_def

lemma example_loop:
  "rewrite_loop example_env ss config ra method Stats_default example_code
   = Some (Inr (example_stats, \<lparr> body = 0, editable_cfg_built = False \<rparr>))"
  by (simp add: run_defs example_defs)

lemma example_per_method:
  "per_method example_env ss config ra (example_method\<lparr>get_code := Some example_code\<rparr>)
   = Some (Inr (example_stats,
        example_method\<lparr>get_code := Some \<lparr> body = 0, editable_cfg_built = False \<rparr>\<rparr>))"
  by (simp add: per_method_def example_loop) (simp add: example_method_def)

lemma example_run:
  "run_pass example_env (bind_config Map.empty) example_scope example_conf Map.empty
   = Some (Inr example_result)"
  by (simp add: run_pass_def parallel_reduce_methods_def build_cfgs_def per_method_def
      make_shared_state_def pure_methods_def copy_prop_config_def num_threads_def
      bind_config_def bind_def report_metrics_def incr_metric_def run_defs example_defs
      metric_names)


lemma purity_run:
  "run_pass purity_env (bind_config Map.empty) example_scope example_conf Map.empty
   = Some (Inr example_result)"
  by (simp add: run_pass_def parallel_reduce_methods_def build_cfgs_def per_method_def
      make_shared_state_def pure_methods_def copy_prop_config_def num_threads_def
      bind_config_def bind_def report_metrics_def incr_metric_def run_defs example_defs
      purity_env_def metric_names)

lemma purity_run_allow_list_alone:
  "map_option (map_sum id scope_after)
     (run_pass purity_env (bind_config Map.empty) example_scope \<lparr> conf_pure_methods = [] \<rparr>
        Map.empty)
   = Some (Inr [example_method, skipped_method, abstract_method])"
  by (simp add: run_pass_def parallel_reduce_methods_def build_cfgs_def per_method_def
      make_shared_state_def pure_methods_def copy_prop_config_def num_threads_def
      bind_config_def bind_def report_metrics_def incr_metric_def run_defs example_defs
      purity_env_def metric_names)

lemma example_run_debug:
  "run_pass example_env (bind_config [''debug'' \<mapsto> True]) example_scope example_conf Map.empty
   = Some (Inr (example_result\<lparr>threads := 1\<rparr>))"
  by (simp add: run_pass_def parallel_reduce_methods_def build_cfgs_def per_method_def
      make_shared_state_def pure_methods_def copy_prop_config_def num_threads_def
      bind_config_def bind_def report_metrics_def incr_metric_def run_defs example_defs
      metric_names)

subsection \<open>The pass\<close>

lemma fold_insert_union: "fold insert xs A = A \<union> set xs"
  by (induction xs arbitrary: A) auto

lemma run_pass_normal:
  assumes "run_pass env pass scope conf mgr = Some (Inr r)"
  obtains stats where
    "reduce_methods
       (per_method env (make_shared_state env conf (build_cfgs scope)) (copy_prop_config env)
          (m_runtime_assertions pass))
       aggregate_stats Stats_default (num_threads env pass) (build_cfgs scope)
     = Some (Inr (stats, scope_after r))"
    and "metrics_after r
         = report_metrics env stats
             (shared_stats env (make_shared_state env conf (build_cfgs scope))) mgr"
    and "threads r = num_threads env pass"
  using assms
  by (auto simp: run_pass_def parallel_reduce_methods_def Let_def
      split: option.splits sum.splits prod.splits)

lemma run_pass_abort:
  "run_pass env pass scope conf mgr = Some (Inl e) \<Longrightarrow>
   reduce_methods
     (per_method env (make_shared_state env conf (build_cfgs scope)) (copy_prop_config env)
        (m_runtime_assertions pass))
     aggregate_stats Stats_default (num_threads env pass) (build_cfgs scope)
   = Some (Inl e)"
  by (auto simp: run_pass_def parallel_reduce_methods_def Let_def
      split: option.splits sum.splits prod.splits)

lemma incr_metric_apply:
  "incr_metric mgr k v x
   = (if x = k then Some ((case mgr k of None \<Rightarrow> 0 | Some c \<Rightarrow> c) + v) else mgr x)"
  by (simp add: incr_metric_def subscript_add_apply)

lemma fold_incr_metric_other:
  "\<forall>p \<in> set ps. g p \<noteq> name \<Longrightarrow>
   fold (\<lambda>p mgr. incr_metric mgr (g p) (snd p)) ps mgr name = mgr name"
  by (induction ps arbitrary: mgr) (auto simp: incr_metric_apply)

lemma report_metrics_max_iterations:
  "report_metrics env stats shared_state_stats mgr METRIC_MAX_ITERATIONS
   = Some ((case mgr METRIC_MAX_ITERATIONS of None \<Rightarrow> 0 | Some c \<Rightarrow> c) + max_iterations stats)"
  by (simp add: report_metrics_def Let_def incr_metric_apply metric_names
      fold_incr_metric_other)

lemma run_pass_copy_propagation_cong:
  assumes "\<And>code method. cp (copy_prop_config env) code method
                          = copy_propagation_run env (copy_prop_config env) code method"
  shows "run_pass (env\<lparr>copy_propagation_run := cp\<rparr>) pass scope conf mgr
         = run_pass env pass scope conf mgr"
proof -
  have mapper: "per_method (env\<lparr>copy_propagation_run := cp\<rparr>) ss (copy_prop_config env) ra
        = per_method env ss (copy_prop_config env) ra" for ss ra
    by (rule ext)
       (simp add: per_method_def
          rewrite_loop_copy_propagation_cong
            [where cp = cp and config = "copy_prop_config env" and env = env, OF assms]
          cong: option.case_cong if_cong)
  have shared: "make_shared_state (env\<lparr>copy_propagation_run := cp\<rparr>) conf
                = make_shared_state env conf"
    by (simp add: make_shared_state_def pure_methods_def fun_eq_iff)
  have config: "copy_prop_config (env\<lparr>copy_propagation_run := cp\<rparr>) = copy_prop_config env"
    by (simp add: copy_prop_config_def)
  have threads: "num_threads (env\<lparr>copy_propagation_run := cp\<rparr>) = num_threads env"
    by (simp add: num_threads_def fun_eq_iff)
  have report: "report_metrics (env\<lparr>copy_propagation_run := cp\<rparr>) = report_metrics env"
    by (simp add: report_metrics_def fun_eq_iff)
  have stats: "shared_stats (env\<lparr>copy_propagation_run := cp\<rparr>) = shared_stats env"
    by simp
  show ?thesis
    unfolding run_pass_def shared config threads report stats mapper ..
qed

lemma run_pass_env_cong:
  assumes engine: "cse_patch env1 = cse_patch env2"
    and copy: "copy_propagation_run env1 = copy_propagation_run env2"
    and dce: "local_dce env1 = local_dce env2"
    and pure: "shared_pure_methods env1 = shared_pure_methods env2"
    and sstats: "shared_stats env1 = shared_stats env2"
    and opcode: "show_opcode env1 = show_opcode env2"
    and dflt: "default_Config env1 = default_Config env2"
    and shared: "make_shared_state env1 conf (build_cfgs scope)
                 = make_shared_state env2 conf (build_cfgs scope)"
    and workers: "num_threads env1 pass = num_threads env2 pass"
  shows "run_pass env1 pass scope conf mgr = run_pass env2 pass scope conf mgr"
proof -
  have mapper: "per_method env1 = per_method env2"
    by (intro ext)
       (simp add: per_method_def rewrite_loop_env_cong [OF engine copy dce pure]
          cong: option.case_cong if_cong)
  have config: "copy_prop_config env1 = copy_prop_config env2"
    by (simp add: copy_prop_config_def dflt)
  have report: "report_metrics env1 = report_metrics env2"
    by (simp add: report_metrics_def fun_eq_iff opcode)
  show ?thesis
    unfolding run_pass_def Let_def shared config workers report sstats mapper ..
qed

subsection \<open>An engine that never settles\<close>

lemma oscillating_never_leaves:
  "editable_cfg_built code \<Longrightarrow> \<not> leaves_loop oscillating_env ss config ra m code n"
proof (induction n arbitrary: code)
  case 0
  then show ?case
    by (simp add: leaves_loop_0 any_changes_def oscillating_env_def)
next
  case (Suc n)
  have "editable_cfg_built (code_after_iteration oscillating_env ss config ra m code)"
    by (simp add: code_after_iteration_def Let_def build_cfg_def oscillating_env_def
        example_env_def)
  then show ?case
    unfolding leaves_loop_Suc by (rule Suc.IH)
qed

lemma oscillating_loop:
  "editable_cfg_built code \<Longrightarrow>
   rewrite_loop oscillating_env ss config ra m stats code = None"
  using returns_leaves_loop [of oscillating_env ss config ra m stats code]
    oscillating_never_leaves [of code ss config ra m]
  by (cases "rewrite_loop oscillating_env ss config ra m stats code") auto

section \<open>The claims\<close>

subsection \<open>The merge of statistics\<close>

text \<open>
  C4. The merge \<^verbatim>\<open>aggregate_stats\<close> is associative and commutative, and the default
  \<^verbatim>\<open>Stats\<close> is its identity on both sides. So the totals of the pass do not depend on the
  order in which the results of the methods are merged: two reductions that return, over
  the same methods taken in any two orders (and with any two numbers of threads), return
  the same totals.
\<close>

theorem aggregate_stats_order_independent:
  "aggregate_stats (aggregate_stats a b) c = aggregate_stats a (aggregate_stats b c)
   \<and> aggregate_stats a b = aggregate_stats b a
   \<and> aggregate_stats Stats_default a = a
   \<and> aggregate_stats a Stats_default = a
   \<and> (mset ms1 = mset ms2
        \<and> reduce_methods mapper aggregate_stats Stats_default n1 ms1 = Some (Inr (acc1, ms1'))
        \<and> reduce_methods mapper aggregate_stats Stats_default n2 ms2 = Some (Inr (acc2, ms2'))
      \<longrightarrow> acc1 = acc2)"
proof (intro conjI impI)
  show "aggregate_stats (aggregate_stats a b) c = aggregate_stats a (aggregate_stats b c)"
    by (rule aggregate_stats_assoc)
  show "aggregate_stats a b = aggregate_stats b a"
    by (rule aggregate_stats_commute)
  show "aggregate_stats Stats_default a = a"
    by (rule aggregate_stats_default_left)
  show "aggregate_stats a Stats_default = a"
    by (rule aggregate_stats_default_right)
next
  assume h: "mset ms1 = mset ms2
    \<and> reduce_methods mapper aggregate_stats Stats_default n1 ms1 = Some (Inr (acc1, ms1'))
    \<and> reduce_methods mapper aggregate_stats Stats_default n2 ms2 = Some (Inr (acc2, ms2'))"
  then have "acc1 = fold (\<lambda>m a. aggregate_stats a (stats_of (mapper m))) ms1 Stats_default"
    and "acc2 = fold (\<lambda>m a. aggregate_stats a (stats_of (mapper m))) ms2 Stats_default"
    by (auto dest: reduce_methods_total)
  with h show "acc1 = acc2"
    by (simp add: fold_aggregate_stats_order [of ms1 ms2])
qed

theorem aggregate_stats_order_independent_witness:
  "mset [example_method\<lparr>get_code := Some example_code\<rparr>, skipped_method]
     = mset [skipped_method, example_method\<lparr>get_code := Some example_code\<rparr>]
   \<and> reduce_methods (per_method example_env {} (copy_prop_config example_env) False)
         aggregate_stats Stats_default 1
         [example_method\<lparr>get_code := Some example_code\<rparr>, skipped_method]
       = Some (Inr (example_stats,
           [example_method\<lparr>get_code := Some \<lparr> body = 0, editable_cfg_built = False \<rparr>\<rparr>,
            skipped_method]))
   \<and> reduce_methods (per_method example_env {} (copy_prop_config example_env) False)
         aggregate_stats Stats_default 4
         [skipped_method, example_method\<lparr>get_code := Some example_code\<rparr>]
       = Some (Inr (example_stats,
           [skipped_method,
            example_method\<lparr>get_code := Some \<lparr> body = 0, editable_cfg_built = False \<rparr>\<rparr>]))"
proof -
  have skip: "per_method example_env {} (copy_prop_config example_env) False skipped_method
              = Some (Inr (Stats_default, skipped_method))"
    by (simp add: per_method_def skipped_method_def example_method_def clear_cfg_def)
  have one: "reduce_methods (per_method example_env {} (copy_prop_config example_env) False)
         aggregate_stats Stats_default 1
         [example_method\<lparr>get_code := Some example_code\<rparr>, skipped_method]
       = Some (Inr (example_stats,
           [example_method\<lparr>get_code := Some \<lparr> body = 0, editable_cfg_built = False \<rparr>\<rparr>,
            skipped_method]))"
    by (simp add: example_per_method skip aggregate_stats_default_left
        aggregate_stats_default_right)
  obtain acc ms where two:
    "reduce_methods (per_method example_env {} (copy_prop_config example_env) False)
         aggregate_stats Stats_default 4
         [skipped_method, example_method\<lparr>get_code := Some example_code\<rparr>]
       = Some (Inr (acc, ms))"
    and ms: "ms = [skipped_method,
            example_method\<lparr>get_code := Some \<lparr> body = 0, editable_cfg_built = False \<rparr>\<rparr>]"
    by (simp add: example_per_method skip)
  have perm: "mset [example_method\<lparr>get_code := Some example_code\<rparr>, skipped_method]
     = mset [skipped_method, example_method\<lparr>get_code := Some example_code\<rparr>]"
    by simp
  from aggregate_stats_order_independent
         [of Stats_default Stats_default Stats_default
            "[example_method\<lparr>get_code := Some example_code\<rparr>, skipped_method]"
            "[skipped_method, example_method\<lparr>get_code := Some example_code\<rparr>]"
            "per_method example_env {} (copy_prop_config example_env) False"
            1 example_stats _ 4 acc ms]
       perm one two
  have "example_stats = acc" by blast
  with perm one two ms show ?thesis by simp
qed

subsection \<open>The rewrite loop\<close>

text \<open>
  C1, as the spec states it, fails: the loop has no iteration cap. With an engine that
  reports a change every time, the pass never returns on a method that has code; the
  counter \<^verbatim>\<open>max_iterations\<close> goes up (and wraps) and nothing reads it.
\<close>

theorem rewrite_loop_no_cap_counterexample:
  "run_pass oscillating_env (bind_config Map.empty) [example_method] example_conf Map.empty
   = None"
  by (simp add: run_pass_def parallel_reduce_methods_def build_cfgs_def per_method_def
      example_method_def build_cfg_def oscillating_loop)

text \<open>
  C1, amended. The loop has no iteration cap. It stops (it returns, or the assertion on
  the editable CFG aborts) exactly when some iteration finds that the value-numbering pass
  reports no change or that the CFG is not built; it returns exactly when some iteration
  finds no change and the CFG was built at the top of every iteration up to that one.
  Neither depends on the statistics the loop is started with: the counter of iterations
  is a statistic only.
\<close>

theorem rewrite_loop_returns_iff:
  "((rewrite_loop env ss config ra m stats code \<noteq> None)
    = (\<exists>n. leaves_loop env ss config ra m code n))
   \<and> ((\<exists>r. rewrite_loop env ss config ra m stats code = Some (Inr r))
      = (\<exists>n. leaves_loop env ss config ra m code n
             \<and> (\<forall>k\<le>n. editable_cfg_built
                          ((code_after_iteration env ss config ra m ^^ k) code))))"
proof (intro conjI)
  show "(rewrite_loop env ss config ra m stats code \<noteq> None)
        = (\<exists>n. leaves_loop env ss config ra m code n)"
    using leaves_loop_returns [of env ss config ra m code _ stats]
      returns_leaves_loop [of env ss config ra m stats code]
    by (cases "rewrite_loop env ss config ra m stats code") auto
  show "(\<exists>r. rewrite_loop env ss config ra m stats code = Some (Inr r))
      = (\<exists>n. leaves_loop env ss config ra m code n
             \<and> (\<forall>k\<le>n. editable_cfg_built
                          ((code_after_iteration env ss config ra m ^^ k) code)))"
    using rewrite_loop_first_exit [of env ss config ra m stats code]
      rewrite_loop_normal_return [of env ss config ra m code _ stats]
    by (metis prod.exhaust)
qed

theorem rewrite_loop_returns_iff_witness:
  "leaves_loop example_env {} (copy_prop_config example_env) False example_method
     example_code 2
   \<and> rewrite_loop example_env {} (copy_prop_config example_env) False example_method
       Stats_default example_code \<noteq> None
   \<and> rewrite_loop example_env {} (copy_prop_config example_env) False example_method
       Stats_default example_code
     = Some (Inr (example_stats, \<lparr> body = 0, editable_cfg_built = False \<rparr>))"
proof -
  have "leaves_loop example_env {} (copy_prop_config example_env) False example_method
     example_code 2"
    by (simp add: leaves_loop_def numeral_2_eq_2 loop_body_defs clear_cfg_def build_cfg_def
        example_env_def example_code_def)
  then have "rewrite_loop example_env {} (copy_prop_config example_env) False example_method
       Stats_default example_code \<noteq> None"
    using rewrite_loop_returns_iff
      [of example_env "{}" "copy_prop_config example_env" False example_method Stats_default
          example_code]
    by blast
  with \<open>leaves_loop example_env {} (copy_prop_config example_env) False example_method
     example_code 2\<close> show ?thesis
    by (simp add: example_loop)
qed

subsection \<open>Methods that are passed through\<close>

text \<open>
  C2. A method with no code (\<^verbatim>\<open>get_code()\<close> is null) is not touched when the CFGs are
  built, and the mapper returns it as it is, with the default statistics, which add
  nothing to the totals.
\<close>

theorem per_method_null_code:
  "get_code m = None \<Longrightarrow>
   build_cfgs [m] = [m]
   \<and> per_method env ss config ra m = Some (Inr (Stats_default, m))
   \<and> aggregate_stats acc Stats_default = acc"
  by (simp add: build_cfgs_def per_method_no_code aggregate_stats_default_right)

theorem per_method_null_code_witness:
  "get_code abstract_method = None
   \<and> build_cfgs [abstract_method] = [abstract_method]
   \<and> per_method example_env {} (copy_prop_config example_env) False abstract_method
       = Some (Inr (Stats_default, abstract_method))
   \<and> aggregate_stats example_stats Stats_default = example_stats"
proof -
  have "get_code abstract_method = None"
    by (simp add: abstract_method_def)
  from this per_method_null_code [OF this, of example_env "{}" "copy_prop_config example_env"
      False example_stats]
  show ?thesis by simp
qed

text \<open>
  C3. A method marked \<^verbatim>\<open>no_optimizations\<close> is skipped: the mapper clears its CFG, hands
  the method back with its instructions as they were (also counted from before the CFG was
  built), calls no collaborator, and returns the default statistics, which add nothing to
  the totals.
\<close>

theorem per_method_no_optimizations_skips:
  "get_code m = Some code \<Longrightarrow> no_optimizations m \<Longrightarrow>
   per_method env ss config ra m
     = Some (Inr (Stats_default, m\<lparr>get_code := Some (clear_cfg code)\<rparr>))
   \<and> \<not> editable_cfg_built (clear_cfg code)
   \<and> body (clear_cfg code) = body code
   \<and> body (clear_cfg (build_cfg code)) = body code
   \<and> aggregate_stats acc Stats_default = acc"
  by (simp add: per_method_no_optimizations aggregate_stats_default_right clear_cfg_def
      build_cfg_def)

theorem per_method_no_optimizations_skips_witness:
  "get_code (skipped_method\<lparr>get_code := Some example_code\<rparr>) = Some example_code
   \<and> no_optimizations (skipped_method\<lparr>get_code := Some example_code\<rparr>)
   \<and> per_method oscillating_env {} (copy_prop_config oscillating_env) False
       (skipped_method\<lparr>get_code := Some example_code\<rparr>)
       = Some (Inr (Stats_default, skipped_method))
   \<and> aggregate_stats example_stats Stats_default = example_stats"
proof -
  have code: "get_code (skipped_method\<lparr>get_code := Some example_code\<rparr>) = Some example_code"
    by simp
  have flag: "no_optimizations (skipped_method\<lparr>get_code := Some example_code\<rparr>)"
    by (simp add: skipped_method_def)
  from code flag
    per_method_no_optimizations_skips [OF code flag, of oscillating_env "{}"
      "copy_prop_config oscillating_env" False example_stats]
  show ?thesis
    by (simp add: skipped_method_def example_method_def example_code_def clear_cfg_def)
qed

subsection \<open>What the collaborators are given\<close>

text \<open>
  C5. The set of pure methods that the shared state is constructed on is the union of the
  allow-list of the framework and the configured methods, and the shared state is
  initialised on the scope (where its fixed point is computed) from the state constructed
  on that union. In the pass, the constructor of the shared state is run on that union
  and on no other set, and \<^verbatim>\<open>init_scope\<close> on the state so constructed and on no other: a
  constructor that agrees with the given one on the union, or an \<^verbatim>\<open>init_scope\<close> that
  agrees with the given one on that state and the scope with its CFGs built, gives the
  same run of the pass.
\<close>

theorem pure_methods_union:
  "pure_methods env conf = get_pure_methods env \<union> set (conf_pure_methods conf)
   \<and> make_shared_state env conf scope
       = init_scope env
           (new_SharedState env (get_pure_methods env \<union> set (conf_pure_methods conf))) scope
   \<and> (ctor (get_pure_methods env \<union> set (conf_pure_methods conf))
         = new_SharedState env (get_pure_methods env \<union> set (conf_pure_methods conf))
        \<longrightarrow> run_pass (env\<lparr>new_SharedState := ctor\<rparr>) pass scope conf mgr
            = run_pass env pass scope conf mgr)
   \<and> (init (new_SharedState env (get_pure_methods env \<union> set (conf_pure_methods conf)))
            (build_cfgs scope)
         = init_scope env
             (new_SharedState env (get_pure_methods env \<union> set (conf_pure_methods conf)))
             (build_cfgs scope)
        \<longrightarrow> run_pass (env\<lparr>init_scope := init\<rparr>) pass scope conf mgr
            = run_pass env pass scope conf mgr)"
proof (intro conjI impI)
  show "pure_methods env conf = get_pure_methods env \<union> set (conf_pure_methods conf)"
    by (simp add: pure_methods_def fold_insert_union)
  show "make_shared_state env conf scope
       = init_scope env
           (new_SharedState env (get_pure_methods env \<union> set (conf_pure_methods conf))) scope"
    by (simp add: make_shared_state_def pure_methods_def fold_insert_union)
next
  assume "ctor (get_pure_methods env \<union> set (conf_pure_methods conf))
         = new_SharedState env (get_pure_methods env \<union> set (conf_pure_methods conf))"
  then have "make_shared_state (env\<lparr>new_SharedState := ctor\<rparr>) conf (build_cfgs scope)
             = make_shared_state env conf (build_cfgs scope)"
    by (simp add: make_shared_state_def pure_methods_def fold_insert_union)
  then show "run_pass (env\<lparr>new_SharedState := ctor\<rparr>) pass scope conf mgr
             = run_pass env pass scope conf mgr"
    by (intro run_pass_env_cong) (simp_all add: num_threads_def)
next
  assume "init (new_SharedState env (get_pure_methods env \<union> set (conf_pure_methods conf)))
            (build_cfgs scope)
         = init_scope env
             (new_SharedState env (get_pure_methods env \<union> set (conf_pure_methods conf)))
             (build_cfgs scope)"
  then have "make_shared_state (env\<lparr>init_scope := init\<rparr>) conf (build_cfgs scope)
             = make_shared_state env conf (build_cfgs scope)"
    by (simp add: make_shared_state_def pure_methods_def fold_insert_union)
  then show "run_pass (env\<lparr>init_scope := init\<rparr>) pass scope conf mgr
             = run_pass env pass scope conf mgr"
    by (intro run_pass_env_cong) (simp_all add: num_threads_def)
qed

theorem pure_methods_union_witness:
  "pure_methods purity_env example_conf
     = {''Ljava/lang/Math;.abs:(I)I'', ''LFoo;.id:(I)I''}
   \<and> strict_SharedState (get_pure_methods purity_env)
       \<noteq> new_SharedState purity_env (get_pure_methods purity_env)
   \<and> run_pass (purity_env\<lparr>new_SharedState := strict_SharedState\<rparr>) (bind_config Map.empty)
       example_scope example_conf Map.empty
     = Some (Inr example_result)
   \<and> map_option (map_sum id scope_after)
       (run_pass purity_env (bind_config Map.empty) example_scope
          \<lparr> conf_pure_methods = [] \<rparr> Map.empty)
     = Some (Inr [example_method, skipped_method, abstract_method])
   \<and> scope_after example_result \<noteq> [example_method, skipped_method, abstract_method]"
proof -
  note inst = pure_methods_union
      [of purity_env example_conf example_scope strict_SharedState "bind_config Map.empty"
         Map.empty]
  have agree: "strict_SharedState
           (get_pure_methods purity_env \<union> set (conf_pure_methods example_conf))
         = new_SharedState purity_env
             (get_pure_methods purity_env \<union> set (conf_pure_methods example_conf))"
    by (simp add: strict_SharedState_def purity_env_def example_env_def example_conf_def)
  with inst
  have "run_pass (purity_env\<lparr>new_SharedState := strict_SharedState\<rparr>) (bind_config Map.empty)
          example_scope example_conf Map.empty
        = run_pass purity_env (bind_config Map.empty) example_scope example_conf Map.empty"
    by blast
  moreover from inst have "pure_methods purity_env example_conf
     = {''Ljava/lang/Math;.abs:(I)I'', ''LFoo;.id:(I)I''}"
    by (auto simp: purity_env_def example_env_def example_conf_def)
  moreover have "strict_SharedState (get_pure_methods purity_env)
       \<noteq> new_SharedState purity_env (get_pure_methods purity_env)"
    by (simp add: strict_SharedState_def purity_env_def example_env_def)
  moreover have "scope_after example_result \<noteq> [example_method, skipped_method, abstract_method]"
    by (simp add: example_result_def example_method_def)
  ultimately show ?thesis
    by (simp add: purity_run purity_run_allow_list_alone)
qed

text \<open>
  C6. The configuration that the pass hands to copy propagation has const-class
  elimination, const-string elimination and static-final propagation off, and copy
  propagation is never run on another one: a copy propagation that agrees with the given
  one on every configuration with the three off gives the same run of the pass.
\<close>

theorem copy_propagation_features_disabled:
  "\<not> eliminate_const_classes (copy_prop_config env)
   \<and> \<not> eliminate_const_strings (copy_prop_config env)
   \<and> \<not> static_finals (copy_prop_config env)
   \<and> ((\<forall>config code m.
          \<not> eliminate_const_classes config \<and> \<not> eliminate_const_strings config
          \<and> \<not> static_finals config
          \<longrightarrow> cp config code m = copy_propagation_run env config code m)
        \<longrightarrow> run_pass (env\<lparr>copy_propagation_run := cp\<rparr>) pass scope conf mgr
            = run_pass env pass scope conf mgr)"
proof (intro conjI impI)
  assume "\<forall>config code m.
          \<not> eliminate_const_classes config \<and> \<not> eliminate_const_strings config
          \<and> \<not> static_finals config
          \<longrightarrow> cp config code m = copy_propagation_run env config code m"
  then have "cp (copy_prop_config env) code m
             = copy_propagation_run env (copy_prop_config env) code m" for code m
    by (simp add: copy_prop_config_def)
  then show "run_pass (env\<lparr>copy_propagation_run := cp\<rparr>) pass scope conf mgr
             = run_pass env pass scope conf mgr"
    by (rule run_pass_copy_propagation_cong)
qed (simp_all add: copy_prop_config_def)

theorem copy_propagation_features_disabled_witness:
  "eager_copy_propagation (default_Config example_env) example_code example_method
     \<noteq> copy_propagation_run example_env (default_Config example_env) example_code example_method
   \<and> run_pass (example_env\<lparr>copy_propagation_run := eager_copy_propagation\<rparr>)
       (bind_config Map.empty) example_scope example_conf Map.empty
     = Some (Inr example_result)"
proof -
  have "\<forall>config code m.
          \<not> eliminate_const_classes config \<and> \<not> eliminate_const_strings config
          \<and> \<not> static_finals config
          \<longrightarrow> eager_copy_propagation config code m
              = copy_propagation_run example_env config code m"
    by (simp add: eager_copy_propagation_def example_env_def)
  with copy_propagation_features_disabled
         [of example_env eager_copy_propagation "bind_config Map.empty" example_scope
            example_conf Map.empty]
  have "run_pass (example_env\<lparr>copy_propagation_run := eager_copy_propagation\<rparr>)
          (bind_config Map.empty) example_scope example_conf Map.empty
        = run_pass example_env (bind_config Map.empty) example_scope example_conf Map.empty"
    by blast
  then show ?thesis
    by (simp add: example_run) (simp add: eager_copy_propagation_def example_env_def
        example_code_def)
qed

text \<open>
  C8. With the \<^verbatim>\<open>debug\<close> entry of the configuration of the pass set, the reduction over the
  methods is run by one worker, and the pass does not look at the default number of
  threads of the host; without it (the entry false or absent, the default being false)
  the reduction is run by the default number of threads of the host.
\<close>

theorem debug_runs_single_threaded:
  "num_threads env (bind_config json)
     = (if json ''debug'' = Some True then 1 else default_num_threads env)
   \<and> (run_pass env (bind_config json) scope conf mgr = Some (Inr r)
        \<longrightarrow> threads r = (if json ''debug'' = Some True then 1 else default_num_threads env))
   \<and> (parallel_reduce_methods
          (per_method env (make_shared_state env conf (build_cfgs scope))
             (copy_prop_config env) (m_runtime_assertions (bind_config json)))
          aggregate_stats Stats_default workers (build_cfgs scope) = Some (Inr (out, w))
        \<longrightarrow> w = workers
            \<and> (workers = (if json ''debug'' = Some True then 1 else default_num_threads env)
                 \<longrightarrow> run_pass env (bind_config json) scope conf mgr
                     = Some (Inr \<lparr> scope_after = snd out,
                                    metrics_after = report_metrics env (fst out)
                                      (shared_stats env
                                         (make_shared_state env conf (build_cfgs scope))) mgr,
                                    threads = w \<rparr>)))
   \<and> (json ''debug'' = Some True
        \<longrightarrow> run_pass (env\<lparr>default_num_threads := k\<rparr>) (bind_config json) scope conf mgr
            = run_pass env (bind_config json) scope conf mgr)"
proof (intro conjI impI)
  show n: "num_threads env (bind_config json)
           = (if json ''debug'' = Some True then 1 else default_num_threads env)"
    by (auto simp: num_threads_def bind_config_def bind_def split: option.splits)
  show "threads r = (if json ''debug'' = Some True then 1 else default_num_threads env)"
    if "run_pass env (bind_config json) scope conf mgr = Some (Inr r)"
    using that n
    by (auto simp: run_pass_def parallel_reduce_methods_def Let_def
        split: option.splits sum.splits prod.splits)
  show "w = workers"
    if "parallel_reduce_methods
          (per_method env (make_shared_state env conf (build_cfgs scope))
             (copy_prop_config env) (m_runtime_assertions (bind_config json)))
          aggregate_stats Stats_default workers (build_cfgs scope) = Some (Inr (out, w))"
    using that
    by (auto simp: parallel_reduce_methods_def split: option.splits sum.splits)
  show "run_pass env (bind_config json) scope conf mgr
                     = Some (Inr \<lparr> scope_after = snd out,
                                    metrics_after = report_metrics env (fst out)
                                      (shared_stats env
                                         (make_shared_state env conf (build_cfgs scope))) mgr,
                                    threads = w \<rparr>)"
    if "parallel_reduce_methods
          (per_method env (make_shared_state env conf (build_cfgs scope))
             (copy_prop_config env) (m_runtime_assertions (bind_config json)))
          aggregate_stats Stats_default workers (build_cfgs scope) = Some (Inr (out, w))"
      and "workers = (if json ''debug'' = Some True then 1 else default_num_threads env)"
    using that n
    by (cases out) (simp add: run_pass_def Let_def)
next
  assume "json ''debug'' = Some True"
  then have "num_threads (env\<lparr>default_num_threads := k\<rparr>) (bind_config json)
             = num_threads env (bind_config json)"
    by (simp add: num_threads_def bind_config_def bind_def)
  then show "run_pass (env\<lparr>default_num_threads := k\<rparr>) (bind_config json) scope conf mgr
            = run_pass env (bind_config json) scope conf mgr"
    by (intro run_pass_env_cong) (simp_all add: make_shared_state_def pure_methods_def)
qed

theorem debug_runs_single_threaded_witness:
  "[''debug'' \<mapsto> True] ''debug'' = Some True
   \<and> default_num_threads example_env = 4
   \<and> run_pass example_env (bind_config [''debug'' \<mapsto> True]) example_scope example_conf
       Map.empty
     = Some (Inr (example_result\<lparr>threads := 1\<rparr>))
   \<and> threads (example_result\<lparr>threads := 1\<rparr>) = 1
   \<and> run_pass (example_env\<lparr>default_num_threads := 16\<rparr>) (bind_config [''debug'' \<mapsto> True])
       example_scope example_conf Map.empty
     = Some (Inr (example_result\<lparr>threads := 1\<rparr>))
   \<and> run_pass example_env (bind_config Map.empty) example_scope example_conf Map.empty
     = Some (Inr example_result)
   \<and> threads example_result = default_num_threads example_env"
proof -
  note debug = debug_runs_single_threaded
      [of example_env "[''debug'' \<mapsto> True]" example_scope example_conf Map.empty
         "example_result\<lparr>threads := 1\<rparr>" _ _ _ 16]
  note plain = debug_runs_single_threaded
      [of example_env Map.empty example_scope example_conf Map.empty example_result]
  have set: "[''debug'' \<mapsto> True] ''debug'' = Some True"
    by simp
  with debug
  have "run_pass (example_env\<lparr>default_num_threads := 16\<rparr>) (bind_config [''debug'' \<mapsto> True])
          example_scope example_conf Map.empty
        = run_pass example_env (bind_config [''debug'' \<mapsto> True]) example_scope example_conf
            Map.empty"
    by blast
  moreover from plain example_run
  have "threads example_result = default_num_threads example_env"
    by simp
  ultimately show ?thesis
    using set by (simp add: example_run example_run_debug) (simp add: example_env_def)
qed

subsection \<open>What the statistics add up to\<close>

text \<open>
  C9. In the merge, \<^verbatim>\<open>max_value_ids\<close> and \<^verbatim>\<open>max_iterations\<close> are the maximum of the two
  operands; every other counter is their sum, the eliminations per opcode key by key (an
  absent key counting as zero). So when the pass returns, the metric
  \<^verbatim>\<open>num_max_iterations\<close> has gone up by the maximum, over the methods of the scope, of the
  \<^verbatim>\<open>max_iterations\<close> of the method (zero for an empty scope), not by their sum. And the
  \<^verbatim>\<open>max_iterations\<close> of a method is the number of iterations its loop ran (as a 64-bit
  counter), zero for a method that is passed through, given that the engine leaves the
  field at zero in its own statistics.
\<close>

theorem stats_merged_by_sum_and_max:
  "results_captured (aggregate_stats a b) = results_captured a + results_captured b
   \<and> stores_captured (aggregate_stats a b) = stores_captured a + stores_captured b
   \<and> array_lengths_captured (aggregate_stats a b)
       = array_lengths_captured a + array_lengths_captured b
   \<and> instructions_eliminated (aggregate_stats a b)
       = instructions_eliminated a + instructions_eliminated b
   \<and> max_value_ids (aggregate_stats a b) = max (max_value_ids a) (max_value_ids b)
   \<and> methods_using_other_tracked_location_bit (aggregate_stats a b)
       = methods_using_other_tracked_location_bit a
         + methods_using_other_tracked_location_bit b
   \<and> eliminated_opcodes (aggregate_stats a b) k
       = (case eliminated_opcodes b k of
            None \<Rightarrow> eliminated_opcodes a k
          | Some v \<Rightarrow> Some ((case eliminated_opcodes a k of None \<Rightarrow> 0 | Some c \<Rightarrow> c) + v))
   \<and> skipped_due_to_too_many_registers (aggregate_stats a b)
       = skipped_due_to_too_many_registers a + skipped_due_to_too_many_registers b
   \<and> max_iterations (aggregate_stats a b) = max (max_iterations a) (max_iterations b)
   \<and> (run_pass env pass scope conf mgr = Some (Inr r)
        \<longrightarrow> metrics_after r METRIC_MAX_ITERATIONS
            = Some ((case mgr METRIC_MAX_ITERATIONS of None \<Rightarrow> 0 | Some c \<Rightarrow> c)
                    + Max (insert 0
                        ((\<lambda>m. max_iterations (stats_of
                                 (per_method env (make_shared_state env conf (build_cfgs scope))
                                    (copy_prop_config env) (m_runtime_assertions pass) m)))
                           ` set (build_cfgs scope)))))
   \<and> (cse_counts_no_iterations env \<and> per_method env ss config ra m = Some (Inr (stats, m'))
        \<longrightarrow> (case get_code m of
               None \<Rightarrow> max_iterations stats = 0
             | Some code \<Rightarrow>
                 if no_optimizations m then max_iterations stats = 0
                 else \<exists>n. leaves_loop env ss config ra m code n
                          \<and> (\<forall>k<n. \<not> leaves_loop env ss config ra m code k)
                          \<and> max_iterations stats = of_nat (Suc n)))"
proof -
  have fields:
    "results_captured (aggregate_stats a b) = results_captured a + results_captured b"
    "stores_captured (aggregate_stats a b) = stores_captured a + stores_captured b"
    "array_lengths_captured (aggregate_stats a b)
       = array_lengths_captured a + array_lengths_captured b"
    "instructions_eliminated (aggregate_stats a b)
       = instructions_eliminated a + instructions_eliminated b"
    "max_value_ids (aggregate_stats a b) = max (max_value_ids a) (max_value_ids b)"
    "methods_using_other_tracked_location_bit (aggregate_stats a b)
       = methods_using_other_tracked_location_bit a
         + methods_using_other_tracked_location_bit b"
    "skipped_due_to_too_many_registers (aggregate_stats a b)
       = skipped_due_to_too_many_registers a + skipped_due_to_too_many_registers b"
    "max_iterations (aggregate_stats a b) = max (max_iterations a) (max_iterations b)"
    by (simp_all add: aggregate_stats_def)
  have opcodes: "eliminated_opcodes (aggregate_stats a b) k
       = (case eliminated_opcodes b k of
            None \<Rightarrow> eliminated_opcodes a k
          | Some v \<Rightarrow> Some ((case eliminated_opcodes a k of None \<Rightarrow> 0 | Some c \<Rightarrow> c) + v))"
    by (simp add: aggregate_stats_def merged_opcodes_lookup)
  have metric: "metrics_after r METRIC_MAX_ITERATIONS
            = Some ((case mgr METRIC_MAX_ITERATIONS of None \<Rightarrow> 0 | Some c \<Rightarrow> c)
                    + Max (insert 0
                        ((\<lambda>m. max_iterations (stats_of
                                 (per_method env (make_shared_state env conf (build_cfgs scope))
                                    (copy_prop_config env) (m_runtime_assertions pass) m)))
                           ` set (build_cfgs scope))))"
    if run: "run_pass env pass scope conf mgr = Some (Inr r)"
  proof -
    from run obtain total where
      red: "reduce_methods
         (per_method env (make_shared_state env conf (build_cfgs scope)) (copy_prop_config env)
            (m_runtime_assertions pass))
         aggregate_stats Stats_default (num_threads env pass) (build_cfgs scope)
       = Some (Inr (total, scope_after r))"
      and met: "metrics_after r
         = report_metrics env total
             (shared_stats env (make_shared_state env conf (build_cfgs scope))) mgr"
      by (rule run_pass_normal)
    have "max_iterations total
          = Max (insert 0
                        ((\<lambda>m. max_iterations (stats_of
                                 (per_method env (make_shared_state env conf (build_cfgs scope))
                                    (copy_prop_config env) (m_runtime_assertions pass) m)))
                           ` set (build_cfgs scope)))"
      unfolding reduce_methods_total [OF red] max_iterations_fold
      by (simp add: Stats_default_def)
    then show ?thesis
      by (simp add: met report_metrics_max_iterations)
  qed
  have count: "(case get_code m of
               None \<Rightarrow> max_iterations stats = 0
             | Some code \<Rightarrow>
                 if no_optimizations m then max_iterations stats = 0
                 else \<exists>n. leaves_loop env ss config ra m code n
                          \<and> (\<forall>k<n. \<not> leaves_loop env ss config ra m code k)
                          \<and> max_iterations stats = of_nat (Suc n))"
    if cse: "cse_counts_no_iterations env"
      and ret: "per_method env ss config ra m = Some (Inr (stats, m'))"
  proof (cases "get_code m")
    case None
    with ret show ?thesis by (auto simp: per_method_def Stats_default_def)
  next
    case (Some code)
    show ?thesis
    proof (cases "no_optimizations m")
      case True
      with ret Some show ?thesis by (auto simp: per_method_def Stats_default_def)
    next
      case False
      with ret Some obtain code' where
        "rewrite_loop env ss config ra m Stats_default code = Some (Inr (stats, code'))"
        by (auto simp: per_method_def split: option.splits sum.splits prod.splits)
      from rewrite_loop_counts [OF this cse] Some False show ?thesis
        by (simp add: Stats_default_def)
    qed
  qed
  from fields opcodes metric count show ?thesis by blast
qed

theorem stats_merged_by_sum_and_max_witness:
  "cse_counts_no_iterations example_env
   \<and> per_method example_env {} (copy_prop_config example_env) False
       (example_method\<lparr>get_code := Some example_code\<rparr>)
     = Some (Inr (example_stats,
          example_method\<lparr>get_code := Some \<lparr> body = 0, editable_cfg_built = False \<rparr>\<rparr>))
   \<and> max_iterations example_stats = of_nat (Suc 2)
   \<and> run_pass example_env (bind_config Map.empty) example_scope example_conf Map.empty
     = Some (Inr example_result)
   \<and> metrics_after example_result METRIC_MAX_ITERATIONS = Some 3
   \<and> max_iterations
       (aggregate_stats example_stats (Stats_default\<lparr>max_iterations := 1\<rparr>)) = 3
   \<and> instructions_eliminated (aggregate_stats example_stats example_stats) = 4
   \<and> eliminated_opcodes (aggregate_stats example_stats example_stats) 144 = Some 4"
proof -
  have cse: "cse_counts_no_iterations example_env"
    by (simp add: cse_counts_no_iterations_def example_env_def Stats_default_def)
  note inst = stats_merged_by_sum_and_max
      [of example_stats example_stats 144 example_env "bind_config Map.empty" example_scope
         example_conf Map.empty example_result "{}" "copy_prop_config example_env" False
         "example_method\<lparr>get_code := Some example_code\<rparr>" example_stats
         "example_method\<lparr>get_code := Some \<lparr> body = 0, editable_cfg_built = False \<rparr>\<rparr>"]
  have "instructions_eliminated (aggregate_stats example_stats example_stats) = 4"
    and "eliminated_opcodes (aggregate_stats example_stats example_stats) 144 = Some 4"
    using inst by (simp_all add: example_stats_def)
  moreover have "max_iterations
       (aggregate_stats example_stats (Stats_default\<lparr>max_iterations := 1\<rparr>)) = 3"
    by (simp add: max_iterations_aggregate_stats example_stats_def)
  ultimately show ?thesis
    using cse example_per_method [of "{}" "copy_prop_config example_env" False] example_run
    by (simp add: example_stats_def example_result_def metric_names)
qed

subsection \<open>The editable CFG\<close>

text \<open>
  C10. When the mapper returns on a method that has code, the method still has its code
  and the editable CFG of that code is cleared, on the path for \<^verbatim>\<open>no_optimizations\<close> and
  on the path out of the loop alike. In a run of the loop that returns, the editable CFG
  was built at the top of every iteration. After a pass that returns, no method of the
  scope is left with an editable CFG built. And the assertion at the top of the loop
  cannot fail in the pass, given that dead code elimination leaves a built CFG built:
  the pass builds the CFG of every method before the mappers run, and the loop builds it
  again before it goes round.
\<close>

theorem editable_cfg_built_in_loop_cleared_on_return:
  "(per_method env ss config ra m = Some (Inr (stats, m')) \<and> get_code m \<noteq> None
      \<longrightarrow> (\<exists>code'. get_code m' = Some code' \<and> \<not> editable_cfg_built code'))
   \<and> (rewrite_loop env ss config ra m stats0 code0 = Some (Inr (stats1, code1))
        \<longrightarrow> \<not> editable_cfg_built code1
            \<and> (\<exists>n. leaves_loop env ss config ra m code0 n
                   \<and> (\<forall>k\<le>n. editable_cfg_built
                                ((code_after_iteration env ss config ra m ^^ k) code0))))
   \<and> (run_pass env pass scope conf mgr = Some (Inr r)
        \<longrightarrow> (\<forall>m \<in> set (scope_after r). \<forall>code'.
               get_code m = Some code' \<longrightarrow> \<not> editable_cfg_built code'))
   \<and> (dce_keeps_cfg env \<longrightarrow> run_pass env pass scope conf mgr \<noteq> Some (Inl e))"
proof (intro conjI impI)
  assume h: "per_method env ss config ra m = Some (Inr (stats, m')) \<and> get_code m \<noteq> None"
  then obtain code' where "get_code m' = Some code'"
    using per_method_keeps_code [of env ss config ra m stats m'] by auto
  moreover from this h have "\<not> editable_cfg_built code'"
    using per_method_clears_cfg [of env ss config ra m stats m' code'] by simp
  ultimately show "\<exists>code'. get_code m' = Some code' \<and> \<not> editable_cfg_built code'"
    by blast
next
  assume "rewrite_loop env ss config ra m stats0 code0 = Some (Inr (stats1, code1))"
  then show "\<not> editable_cfg_built code1"
    by (rule rewrite_loop_clears_cfg)
next
  assume "rewrite_loop env ss config ra m stats0 code0 = Some (Inr (stats1, code1))"
  then show "\<exists>n. leaves_loop env ss config ra m code0 n
                   \<and> (\<forall>k\<le>n. editable_cfg_built
                                ((code_after_iteration env ss config ra m ^^ k) code0))"
    by (rule rewrite_loop_first_exit)
next
  assume run: "run_pass env pass scope conf mgr = Some (Inr r)"
  show "\<forall>m \<in> set (scope_after r). \<forall>code'.
               get_code m = Some code' \<longrightarrow> \<not> editable_cfg_built code'"
  proof (intro ballI allI impI)
    fix m' code'
    assume m': "m' \<in> set (scope_after r)" and code': "get_code m' = Some code'"
    from run obtain total where
      "reduce_methods
         (per_method env (make_shared_state env conf (build_cfgs scope)) (copy_prop_config env)
            (m_runtime_assertions pass))
         aggregate_stats Stats_default (num_threads env pass) (build_cfgs scope)
       = Some (Inr (total, scope_after r))"
      by (rule run_pass_normal)
    from reduce_methods_normal [OF this] m'
    obtain m0 out where
      "per_method env (make_shared_state env conf (build_cfgs scope)) (copy_prop_config env)
         (m_runtime_assertions pass) m0 = Some (Inr (out, m'))"
      by (auto simp: list_all2_conv_all_nth in_set_conv_nth)
    from per_method_clears_cfg [OF this code'] show "\<not> editable_cfg_built code'" .
  qed
next
  assume dce: "dce_keeps_cfg env"
  show "run_pass env pass scope conf mgr \<noteq> Some (Inl e)"
  proof
    assume "run_pass env pass scope conf mgr = Some (Inl e)"
    from reduce_methods_abort [OF run_pass_abort [OF this]]
    obtain m0 where m0: "m0 \<in> set (build_cfgs scope)"
      and abort: "per_method env (make_shared_state env conf (build_cfgs scope))
                    (copy_prop_config env) (m_runtime_assertions pass) m0 = Some (Inl e)"
      by blast
    from m0 have "\<forall>code. get_code m0 = Some code \<longrightarrow> editable_cfg_built code"
      by (auto dest: build_cfgs_built)
    from per_method_assertion_holds [OF dce this] abort show False by blast
  qed
qed

theorem editable_cfg_built_in_loop_cleared_on_return_witness:
  "dce_keeps_cfg example_env
   \<and> run_pass example_env (bind_config Map.empty) example_scope example_conf Map.empty
     = Some (Inr example_result)
   \<and> map (map_option editable_cfg_built \<circ> get_code) (scope_after example_result)
     = [Some False, Some False, None]
   \<and> rewrite_loop example_env {} (copy_prop_config example_env) False example_method
       Stats_default example_code
     = Some (Inr (example_stats, \<lparr> body = 0, editable_cfg_built = False \<rparr>))
   \<and> run_pass example_env (bind_config Map.empty) example_scope example_conf Map.empty
     \<noteq> Some (Inl AssertionFailed)"
proof -
  have dce: "dce_keeps_cfg example_env"
    by (simp add: dce_keeps_cfg_def example_env_def)
  with editable_cfg_built_in_loop_cleared_on_return
         [of example_env _ _ _ _ _ _ _ _ _ _ "bind_config Map.empty" example_scope
            example_conf Map.empty example_result AssertionFailed]
  have "run_pass example_env (bind_config Map.empty) example_scope example_conf Map.empty
     \<noteq> Some (Inl AssertionFailed)"
    by blast
  with dce show ?thesis
    by (simp add: example_run example_loop)
       (simp add: example_result_def example_method_def skipped_method_def
          abstract_method_def)
qed


end
